theory Spec2Isabelle
  imports Complex_Main
begin

section \<open>Numbers, points and the geo-math primitives\<close>

text \<open>
  The navigation core is the React component \<^verbatim>\<open>App\<close>. The repository holds two revisions
  of it: the Leaflet revision in \<^verbatim>\<open>src/App.tsx\<close> and the MapLibre revision that follows the
  service worker inside \<^verbatim>\<open>src/public/sw.js\<close> (from line 35 on). The second one is the
  revision with the route index, the maneuver tracker and the off-route detector; the
  definitions below follow it and give its line numbers in \<^verbatim>\<open>src/public/sw.js\<close>. Where the
  first revision has the same function, that is said.

  A JavaScript \<^verbatim>\<open>number\<close> is modelled as a \<^typ>\<open>real\<close>: arithmetic is exact, and the
  values \<^verbatim>\<open>NaN\<close> and \<^verbatim>\<open>-0\<close> do not exist. \<^verbatim>\<open>Infinity\<close> occurs only as the
  start value of a running minimum and is modelled by \<^term>\<open>None\<close>. Array indices and
  counters are natural numbers, \<^verbatim>\<open>Date.now()\<close> readings are integers (milliseconds).
\<close>

record LatLng =
  lat :: real
  lng :: real

text \<open>\<^verbatim>\<open>Math.trunc\<close> and the remainder operator \<^verbatim>\<open>%\<close>, whose result has the sign of the
  dividend.\<close>

definition js_trunc :: "real \<Rightarrow> int" where
  "js_trunc r = (if 0 \<le> r then \<lfloor>r\<rfloor> else \<lceil>r\<rceil>)"

definition js_rem :: "real \<Rightarrow> real \<Rightarrow> real" where
  "js_rem x y = x - y * of_int (js_trunc (x / y))"

text \<open>\<^verbatim>\<open>Math.atan2(y, x)\<close>.\<close>

definition js_atan2 :: "real \<Rightarrow> real \<Rightarrow> real" where
  "js_atan2 y x =
     (if 0 < x then arctan (y / x)
      else if x < 0 \<and> 0 \<le> y then arctan (y / x) + pi
      else if x < 0 then arctan (y / x) - pi
      else if 0 < y then pi / 2
      else if y < 0 then - (pi / 2)
      else 0)"

text \<open>\<^verbatim>\<open>getDistance\<close> (sw.js 226-228, App.tsx 117-119): planar distance in degree space.\<close>

definition getDistance :: "LatLng \<Rightarrow> LatLng \<Rightarrow> real" where
  "getDistance p1 p2 = sqrt ((lat p2 - lat p1)\<^sup>2 + (lng p2 - lng p1)\<^sup>2)"

text \<open>\<^verbatim>\<open>getDistanceMeters\<close> (sw.js 230-240): haversine distance, Earth radius 6371000 m.\<close>

definition getDistanceMeters :: "LatLng \<Rightarrow> LatLng \<Rightarrow> real" where
  "getDistanceMeters p1 p2 =
     (let R = 6371000;
          dLat = (lat p2 - lat p1) * pi / 180;
          dLng = (lng p2 - lng p1) * pi / 180;
          lat1 = lat p1 * pi / 180;
          lat2 = lat p2 * pi / 180;
          a = sin (dLat / 2) * sin (dLat / 2)
              + cos lat1 * cos lat2 * sin (dLng / 2) * sin (dLng / 2);
          c = 2 * js_atan2 (sqrt a) (sqrt (1 - a))
      in R * c)"

text \<open>\<^verbatim>\<open>getBearingDelta\<close> (sw.js 242-246).\<close>

definition getBearingDelta :: "real \<Rightarrow> real \<Rightarrow> real" where
  "getBearingDelta a b =
     (let diff = js_rem \<bar>a - b\<bar> 360
      in if diff > 180 then 360 - diff else diff)"

text \<open>The speed-adaptive threshold tables (sw.js 248-267).\<close>

definition getAdvanceThreshold :: "real \<Rightarrow> real" where
  "getAdvanceThreshold speedKmh =
     (if speedKmh \<le> 10 then 20 else if speedKmh \<le> 30 then 30
      else if speedKmh \<le> 60 then 50 else 80)"

definition getBearingThreshold :: "real \<Rightarrow> real" where
  "getBearingThreshold speedKmh =
     (if speedKmh \<le> 10 then 70 else if speedKmh \<le> 30 then 55
      else if speedKmh \<le> 60 then 45 else 35)"

definition getOffRouteThreshold :: "real \<Rightarrow> real" where
  "getOffRouteThreshold speedKmh =
     (if speedKmh \<le> 10 then 25 else if speedKmh \<le> 30 then 35
      else if speedKmh \<le> 60 then 55 else 80)"

text \<open>\<^verbatim>\<open>interpolate\<close> (sw.js 328-333) and \<^verbatim>\<open>calculateBearing\<close> (sw.js 335-340).\<close>

definition interpolate :: "LatLng \<Rightarrow> LatLng \<Rightarrow> real \<Rightarrow> LatLng" where
  "interpolate p1 p2 fraction =
     \<lparr>lat = lat p1 + (lat p2 - lat p1) * fraction,
      lng = lng p1 + (lng p2 - lng p1) * fraction\<rparr>"

definition calculateBearing :: "LatLng \<Rightarrow> LatLng \<Rightarrow> real" where
  "calculateBearing start endp =
     (let dy = lat endp - lat start;
          dx = cos (pi / 180 * lat start) * (lng endp - lng start);
          angle = js_atan2 dx dy * 180 / pi
      in js_rem (angle + 360) 360)"

text \<open>
  \<^verbatim>\<open>smoothAngle\<close> (sw.js 342-347). The two conditional corrections of the difference are
  \<open>wrapDiff\<close>; the same three lines are inlined in the heading commit (sw.js 624-627).
\<close>

definition wrapDiff :: "real \<Rightarrow> real" where
  "wrapDiff d =
     (let d1 = (if d > 180 then d - 360 else d)
      in if d1 < - 180 then d1 + 360 else d1)"

definition smoothAngle :: "real \<Rightarrow> real \<Rightarrow> real \<Rightarrow> real" where
  "smoothAngle current target factor =
     js_rem (current + wrapDiff (target - current) * factor + 360) 360"

section \<open>Position snapper\<close>

text \<open>
  \<^verbatim>\<open>getNearestPointOnLine\<close> (sw.js 386-412; the same text is App.tsx 135-161). The loop
  over \<open>i = 0 .. line.length - 2\<close> is \<open>nearestLoop\<close>: it walks the consecutive pairs of
  the polyline, \<open>i\<close> being the index of the pair at the head; \<open>minDistance\<close> starts as
  \<^verbatim>\<open>Infinity\<close> (\<^term>\<open>None\<close>), below which every distance lies.
\<close>

record Snapped =
  point :: LatLng
  bearing :: real
  segmentIndex :: nat

fun nearestLoop :: "LatLng \<Rightarrow> nat \<Rightarrow> LatLng list \<Rightarrow> real option \<Rightarrow> Snapped \<Rightarrow> Snapped" where
  "nearestLoop p i (start # endp # rest) minDistance best =
     (let dx = lng endp - lng start;
          dy = lat endp - lat start
      in if dx = 0 \<and> dy = 0 then nearestLoop p (i + 1) (endp # rest) minDistance best
         else
           let t = ((lng p - lng start) * dx + (lat p - lat start) * dy) / (dx * dx + dy * dy);
               clampedT = max 0 (min 1 t);
               projP = \<lparr>lat = lat start + clampedT * dy, lng = lng start + clampedT * dx\<rparr>;
               dist = getDistance p projP
           in if (case minDistance of None \<Rightarrow> True | Some m \<Rightarrow> dist < m)
              then nearestLoop p (i + 1) (endp # rest) (Some dist)
                     \<lparr>point = projP, bearing = calculateBearing start endp, segmentIndex = i\<rparr>
              else nearestLoop p (i + 1) (endp # rest) minDistance best)"
| "nearestLoop p i line minDistance best = best"

definition getNearestPointOnLine :: "LatLng \<Rightarrow> LatLng list \<Rightarrow> Snapped" where
  "getNearestPointOnLine p line =
     nearestLoop p 0 line None \<lparr>point = p, bearing = 0, segmentIndex = 0\<rparr>"


section \<open>Route data and the route index\<close>

text \<open>
  \<^verbatim>\<open>Maneuver\<close> and \<^verbatim>\<open>RouteResponse\<close> (types.ts, src/unnamed/part_001). The fields that
  the navigation core never reads (\<^verbatim>\<open>instruction\<close>, \<^verbatim>\<open>type\<close>, \<^verbatim>\<open>stats\<close>,
  \<^verbatim>\<open>warnings\<close>, \<^verbatim>\<open>optimizedOrder\<close>) are left out.
\<close>

record Maneuver =
  distance :: real
  location :: "LatLng option"
  roadName :: "string option"

record RouteResponse =
  polyline :: "LatLng list"
  distance :: real
  duration :: real
  maneuvers :: "Maneuver list"

datatype AppStatus = IDLE | PREVIEW | CONFIRM | NAVIGATING | REROUTING | ARRIVED | ERROR

text \<open>
  The cumulative distance table built by the effect on \<^verbatim>\<open>route\<close> (sw.js 204-215):
  \<^verbatim>\<open>distances = [0]\<close>, then \<^verbatim>\<open>distances[i] = distances[i-1] + getDistanceMeters(poly[i-1], poly[i])\<close>.
  \<open>cumulativeFrom acc prev ps\<close> is the rest of the table after an entry \<open>acc\<close> for the
  vertex \<open>prev\<close>. For an empty polyline the ref is \<^verbatim>\<open>null\<close>.
\<close>

fun cumulativeFrom :: "real \<Rightarrow> LatLng \<Rightarrow> LatLng list \<Rightarrow> real list" where
  "cumulativeFrom acc prev [] = []"
| "cumulativeFrom acc prev (p # ps) =
     (let d = acc + getDistanceMeters prev p in d # cumulativeFrom d p ps)"

fun cumulativeDistances :: "LatLng list \<Rightarrow> real list" where
  "cumulativeDistances [] = []"
| "cumulativeDistances (p # ps) = 0 # cumulativeFrom 0 p ps"

definition polylineDistances :: "RouteResponse option \<Rightarrow> real list option" where
  "polylineDistances r =
     (case r of None \<Rightarrow> None
      | Some routeData \<Rightarrow>
          if polyline routeData = [] then None
          else Some (cumulativeDistances (polyline routeData)))"

text \<open>\<^verbatim>\<open>findClosestPolylineIndex\<close> (sw.js 269-280).\<close>

fun closestLoop :: "LatLng \<Rightarrow> nat \<Rightarrow> LatLng list \<Rightarrow> real option \<Rightarrow> nat \<Rightarrow> nat" where
  "closestLoop pt i [] bestDistance bestIndex = bestIndex"
| "closestLoop pt i (v # vs) bestDistance bestIndex =
     (let d = getDistance v pt
      in if (case bestDistance of None \<Rightarrow> True | Some m \<Rightarrow> d < m)
         then closestLoop pt (i + 1) vs (Some d) i
         else closestLoop pt (i + 1) vs bestDistance bestIndex)"

definition findClosestPolylineIndex :: "LatLng \<Rightarrow> LatLng list \<Rightarrow> nat" where
  "findClosestPolylineIndex pt line = closestLoop pt 0 line None 0"

text \<open>\<^verbatim>\<open>findPolylineIndexByDistance\<close> (sw.js 282-287); \<^verbatim>\<open>Math.max(0, i - 1)\<close> is the
  truncating subtraction of natural numbers.\<close>

fun indexByDistanceLoop :: "nat \<Rightarrow> real list \<Rightarrow> real \<Rightarrow> nat \<Rightarrow> nat" where
  "indexByDistanceLoop i [] target n = n - 1"
| "indexByDistanceLoop i (d # ds) target n =
     (if d \<ge> target then i - 1 else indexByDistanceLoop (i + 1) ds target n)"

definition findPolylineIndexByDistance :: "real list \<Rightarrow> real \<Rightarrow> nat" where
  "findPolylineIndexByDistance distances target =
     indexByDistanceLoop 0 distances target (length distances)"

text \<open>
  \<^verbatim>\<open>buildManeuverMeta\<close> (sw.js 289-326). The entries \<^verbatim>\<open>roadName\<close> and \<^verbatim>\<open>location\<close> of
  the meta are only logged and are left out. \<open>metaLoop\<close> is the \<^verbatim>\<open>for\<close> loop: \<open>cum\<close> is
  \<^verbatim>\<open>cumulativeStepDist\<close>, \<open>prev\<close> is \<^verbatim>\<open>meta[i - 1]\<close> (\<^term>\<open>None\<close> at \<open>i = 0\<close>).
  \<^verbatim>\<open>distances[polylineIndex] ?? distanceAlong\<close> falls back when the read is out of range.
  The two reads of the polyline are in range when \<open>distances\<close> is the table of the same
  polyline, which is how the effect calls the function.
\<close>

record ManeuverMeta =
  distanceAlong :: real
  polylineIndex :: nat
  postBearing :: real

fun metaLoop ::
  "RouteResponse \<Rightarrow> real list \<Rightarrow> real \<Rightarrow> Maneuver list \<Rightarrow> real \<Rightarrow> ManeuverMeta option
     \<Rightarrow> ManeuverMeta list" where
  "metaLoop routeData distances scale [] cum prev = []"
| "metaLoop routeData distances scale (maneuver # rest) cum prev =
     (let stepDist = Maneuver.distance maneuver;
          estimate = cum * scale;
          cum' = cum + stepDist;
          idx = (case location maneuver of
                   Some loc \<Rightarrow> findClosestPolylineIndex loc (polyline routeData)
                 | None \<Rightarrow> findPolylineIndexByDistance distances estimate);
          along = (case location maneuver of
                     Some loc \<Rightarrow> (if idx < length distances then distances ! idx else estimate)
                   | None \<Rightarrow> estimate);
          clamped = (case prev of
                       Some pm \<Rightarrow> (if along < distanceAlong pm then distanceAlong pm else along)
                     | None \<Rightarrow> along);
          nextIndex = min (length (polyline routeData) - 1) (idx + 1);
          m = \<lparr>distanceAlong = clamped, polylineIndex = idx,
               postBearing = calculateBearing (polyline routeData ! idx)
                               (polyline routeData ! nextIndex)\<rparr>
      in m # metaLoop routeData distances scale rest cum' (Some m))"

definition buildManeuverMeta :: "RouteResponse \<Rightarrow> real list \<Rightarrow> ManeuverMeta list" where
  "buildManeuverMeta routeData distances =
     (if maneuvers routeData = [] \<or> length distances < 2 then []
      else
        let totalPolylineDist = last distances;
            scale = (if distance routeData > 0 then totalPolylineDist / distance routeData else 1)
        in metaLoop routeData distances scale (maneuvers routeData) 0 None)"

definition maneuverMeta :: "RouteResponse option \<Rightarrow> ManeuverMeta list" where
  "maneuverMeta r =
     (case r of None \<Rightarrow> []
      | Some routeData \<Rightarrow>
          if polyline routeData = [] then []
          else buildManeuverMeta routeData (cumulativeDistances (polyline routeData)))"


section \<open>The navigation session\<close>

text \<open>
  The session is the React state of the component together with its refs. A ref that
  mirrors a state variable through an effect (\<^verbatim>\<open>appStatusRef\<close>, \<^verbatim>\<open>routeRef\<close>, sw.js
  199-203) is the state variable itself. The refs \<^verbatim>\<open>polylineDistancesRef\<close> and
  \<^verbatim>\<open>maneuverMetaRef\<close> are written only by the effect on \<^verbatim>\<open>route\<close> (sw.js 204-220), so
  they are \<^term>\<open>polylineDistances (route s)\<close> and \<^term>\<open>maneuverMeta (route s)\<close>. The
  map, the marker and the camera refs are not modelled: nothing below reads them.

  Two fields are history variables, written but never read by the model:
  \<open>commitLog\<close> records every commit of the throttled rider state (time, position, speed),
  \<open>rerouteRequests\<close> every call of \<^verbatim>\<open>calculateRoute\<close> made by the off-route detector
  (time, route points).
\<close>

datatype js_error = TypeError

record Captured =
  c_isSimulating :: bool
  c_heading :: real
  c_speed :: real
  c_stops :: "LatLng option list"

record SimLoop =
  simCaptured :: Captured
  simPoly :: "LatLng list"
  simTotalDist :: real
  simRouteDistance :: real
  frameCount :: nat

record Session =
  appStatus :: AppStatus
  route :: "RouteResponse option"
  currentPos :: "LatLng option"
  heading :: real
  speed :: real
  isSimulating :: bool
  isFollowing :: bool
  zoomLevel :: real
  currentManeuverIndex :: nat
  currentManeuverRemaining :: "real option"
  errorMessage :: "string option"
  lastStateUpdateTimeRef :: int
  pendingPosRef :: "LatLng option"
  pendingHeadingRef :: "real option"
  pendingSpeedRef :: "real option"
  lastPosRef :: "LatLng option"
  currentManeuverIndexRef :: nat
  currentManeuverRemainingRef :: "real option"
  offRouteCounterRef :: nat
  lastRerouteTimeRef :: int
  reroutingRef :: bool
  smoothedHeadingRef :: real
  distanceRef :: real
  simLastTimeRef :: "real option"
  simLastDistRef :: real
  simLoop :: "SimLoop option"
  commitLog :: "(int \<times> LatLng option \<times> real) list"
  rerouteRequests :: "(int \<times> LatLng list) list"

text \<open>
  One call of \<^verbatim>\<open>updateRiderLocation(newPos, rawHeading, newSpeed)\<close> together with the
  clock readings it makes: \<open>now\<close> is \<^verbatim>\<open>Date.now()\<close> at sw.js 615, \<open>nowMs\<close> the one at
  sw.js 751. \<open>Captured\<close> holds the values the callback closed over when it was created
  (\<^verbatim>\<open>isSimulating\<close>, \<^verbatim>\<open>heading\<close>, \<^verbatim>\<open>speed\<close>, the coordinates of \<^verbatim>\<open>stops\<close>).
\<close>

record Fix =
  newPos :: LatLng
  rawHeading :: "real option"
  newSpeed :: real
  now :: int
  nowMs :: int

text \<open>The state after mounting: the \<^verbatim>\<open>useState\<close> and \<^verbatim>\<open>useRef\<close> initial values
  (sw.js 97-150, 193-197).\<close>

definition initialSession :: Session where
  "initialSession =
     \<lparr>appStatus = IDLE, route = None, currentPos = None, heading = 0, speed = 0,
      isSimulating = False, isFollowing = True, zoomLevel = 13,
      currentManeuverIndex = 0, currentManeuverRemaining = None, errorMessage = None,
      lastStateUpdateTimeRef = 0, pendingPosRef = None, pendingHeadingRef = None,
      pendingSpeedRef = None, lastPosRef = None, currentManeuverIndexRef = 0,
      currentManeuverRemainingRef = None, offRouteCounterRef = 0, lastRerouteTimeRef = 0,
      reroutingRef = False, smoothedHeadingRef = 0, distanceRef = 0, simLastTimeRef = None,
      simLastDistRef = 0, simLoop = None, commitLog = [], rerouteRequests = []\<rparr>"

text \<open>
  Reading \<open>xs[i]\<close> and then a property of the element: out of range the element is
  \<^verbatim>\<open>undefined\<close> and the property access throws a \<^verbatim>\<open>TypeError\<close>.
\<close>

definition elemAt :: "'a list \<Rightarrow> nat \<Rightarrow> js_error + 'a" where
  "elemAt xs i = (if i < length xs then Inr (xs ! i) else Inl TypeError)"

text \<open>\<^verbatim>\<open>setRoute\<close> with the effects on \<^verbatim>\<open>route\<close> (sw.js 204-220 and 889-894), and
  \<^verbatim>\<open>setAppStatus\<close> with the effect on \<^verbatim>\<open>appStatus\<close> (sw.js 889-894).\<close>

definition setRoute :: "RouteResponse option \<Rightarrow> Session \<Rightarrow> Session" where
  "setRoute r s =
     s\<lparr>route := r, currentManeuverIndexRef := 0, currentManeuverIndex := 0,
       currentManeuverRemainingRef := None, currentManeuverRemaining := None\<rparr>"

definition setAppStatus :: "AppStatus \<Rightarrow> Session \<Rightarrow> Session" where
  "setAppStatus st s =
     (if st \<noteq> NAVIGATING
      then s\<lparr>appStatus := st, currentManeuverRemainingRef := None, currentManeuverRemaining := None\<rparr>
      else s\<lparr>appStatus := st\<rparr>)"


section \<open>The fix handler\<close>

text \<open>
  \<^verbatim>\<open>getLookaheadBearing\<close> (sw.js 349-384). \<open>targetLoop\<close> is the search for the first
  index \<open>i \<ge> segIdx\<close> with \<^verbatim>\<open>distances[i] >= targetUnits\<close>; it answers \<^term>\<open>None\<close> for
  \<open>-1\<close>.
\<close>

fun targetLoop :: "nat \<Rightarrow> real list \<Rightarrow> real \<Rightarrow> nat option" where
  "targetLoop i [] targetUnits = None"
| "targetLoop i (d # ds) targetUnits =
     (if d \<ge> targetUnits then Some i else targetLoop (i + 1) ds targetUnits)"

definition getLookaheadBearing ::
  "RouteResponse \<Rightarrow> real list option \<Rightarrow> nat \<Rightarrow> LatLng \<Rightarrow> real \<Rightarrow> js_error + real option" where
  "getLookaheadBearing routeData dists segmentIdx pos lookaheadMeters =
     (case dists of
        None \<Rightarrow> Inr None
      | Some distances \<Rightarrow>
          if length distances < 2 \<or> distance routeData \<le> 0 then Inr None
          else
            let totalUnits = last distances
            in if totalUnits = 0 then Inr None
               else
                 let segIdx = max 0 (min segmentIdx (length (polyline routeData) - 1))
                 in case elemAt (polyline routeData) segIdx of
                      Inl e \<Rightarrow> Inl e
                    | Inr segStart \<Rightarrow>
                        let progressUnits = distances ! segIdx + getDistanceMeters segStart pos;
                            target0 = min totalUnits (progressUnits + lookaheadMeters);
                            targetUnits =
                              (if target0 \<le> progressUnits \<and> progressUnits < totalUnits
                               then min totalUnits (progressUnits + totalUnits * 0.001)
                               else target0);
                            targetIndex =
                              (case targetLoop segIdx (drop segIdx distances) targetUnits of
                                 Some i \<Rightarrow> i
                               | None \<Rightarrow> length distances - 1);
                            prevIndex = targetIndex - 1;
                            segLen = distances ! targetIndex - distances ! prevIndex;
                            frac = (if segLen > 0
                                    then (targetUnits - distances ! prevIndex) / segLen else 0)
                        in case elemAt (polyline routeData) prevIndex of
                             Inl e \<Rightarrow> Inl e
                           | Inr a \<Rightarrow>
                               (case elemAt (polyline routeData) targetIndex of
                                  Inl e \<Rightarrow> Inl e
                                | Inr b \<Rightarrow> Inr (Some (calculateBearing pos (interpolate a b frac)))))"

text \<open>
  The first part of \<^verbatim>\<open>updateRiderLocation\<close> (sw.js 568-588): snapping while navigating,
  otherwise a heading derived from the last position. The result is \<^verbatim>\<open>finalPos\<close>,
  \<^verbatim>\<open>finalHeading\<close> and \<^verbatim>\<open>currentSegmentIndex\<close> (\<^term>\<open>None\<close> for \<open>-1\<close>).
\<close>

definition snapStage :: "Session \<Rightarrow> Fix \<Rightarrow> LatLng \<times> real option \<times> nat option" where
  "snapStage s f =
     (case (if appStatus s = NAVIGATING then route s else None) of
        Some routeData \<Rightarrow>
          let sn = getNearestPointOnLine (newPos f) (polyline routeData)
          in (point sn,
              (if rawHeading f = None \<or> newSpeed f < 5 then Some (bearing sn) else rawHeading f),
              Some (segmentIndex sn))
      | None \<Rightarrow>
          (newPos f,
           (case (rawHeading f, lastPosRef s) of
              (None, Some lastPos) \<Rightarrow>
                if getDistance lastPos (newPos f) > 0.000001
                then Some (calculateBearing lastPos (newPos f)) else None
            | (h, _) \<Rightarrow> h),
           None))"

text \<open>The look-ahead override of the heading in simulation (sw.js 590-599).\<close>

definition lookaheadStage ::
  "Captured \<Rightarrow> Session \<Rightarrow> Fix \<Rightarrow> LatLng \<Rightarrow> real option \<Rightarrow> nat option \<Rightarrow> js_error + real option" where
  "lookaheadStage c s f finalPos finalHeading currentSegmentIndex =
     (case (if appStatus s = NAVIGATING then route s else None, currentSegmentIndex) of
        (Some routeData, Some k) \<Rightarrow>
          if c_isSimulating c then
            let lookAheadMeters = min 60 (max 25 (newSpeed f * 0.6))
            in case getLookaheadBearing routeData (polylineDistances (route s)) k finalPos
                      lookAheadMeters of
                 Inl e \<Rightarrow> Inl e
               | Inr (Some routeBearing) \<Rightarrow> Inr (Some routeBearing)
               | Inr None \<Rightarrow> Inr finalHeading
          else Inr finalHeading
      | _ \<Rightarrow> Inr finalHeading)"

text \<open>The pending refs and the low-speed heading filter (sw.js 601-613).\<close>

definition pendingStage :: "Captured \<Rightarrow> Session \<Rightarrow> Fix \<Rightarrow> LatLng \<Rightarrow> real option \<Rightarrow> Session" where
  "pendingStage c s f finalPos finalHeading =
     s\<lparr>pendingPosRef := Some finalPos,
       pendingSpeedRef := Some (newSpeed f),
       pendingHeadingRef :=
         (if newSpeed f \<ge> 3 \<or> c_isSimulating c \<or> pendingHeadingRef s = None
          then (case finalHeading of Some h \<Rightarrow> Some h | None \<Rightarrow> pendingHeadingRef s)
          else pendingHeadingRef s),
       lastPosRef := Some finalPos\<rparr>"

text \<open>
  The throttled commit (sw.js 615-630; App.tsx 290-305 is the same text). The updater
  passed to \<^verbatim>\<open>setHeading\<close> is applied to the committed heading.
  \<^verbatim>\<open>pendingSpeedRef.current || 0\<close> is the pending speed.
\<close>

definition commitStage :: "Session \<Rightarrow> Fix \<Rightarrow> Session" where
  "commitStage s f =
     (if now f - lastStateUpdateTimeRef s \<ge> 100
      then s\<lparr>lastStateUpdateTimeRef := now f,
             currentPos := pendingPosRef s,
             speed := (case pendingSpeedRef s of Some v \<Rightarrow> v | None \<Rightarrow> 0),
             heading :=
               (case pendingHeadingRef s of
                  Some finalH \<Rightarrow>
                    js_rem (heading s + wrapDiff (finalH - heading s) * 0.15 + 360) 360
                | None \<Rightarrow> heading s),
             commitLog := commitLog s @
               [(now f, pendingPosRef s,
                 (case pendingSpeedRef s of Some v \<Rightarrow> v | None \<Rightarrow> 0))]\<rparr>
      else s)"

text \<open>The unthrottled smoothed heading (sw.js 632-634); \<^verbatim>\<open>heading || 0\<close> is the captured
  heading.\<close>

definition smoothStage :: "Captured \<Rightarrow> Session \<Rightarrow> Session" where
  "smoothStage c s =
     (let movementHeading = (case pendingHeadingRef s of Some h \<Rightarrow> h | None \<Rightarrow> c_heading c)
      in s\<lparr>smoothedHeadingRef := smoothAngle (smoothedHeadingRef s) movementHeading 0.12\<rparr>)"


section \<open>Off-route detector and maneuver tracker\<close>

text \<open>
  The route points of a reroute request (sw.js 761-770): the raw position followed by the
  coordinates of the remaining stops. \<open>stops\<close> are the \<^verbatim>\<open>coord\<close> fields of the stop
  list, \<^term>\<open>None\<close> for \<^verbatim>\<open>null\<close>.
\<close>

definition reroutePoints :: "LatLng option list \<Rightarrow> LatLng \<Rightarrow> LatLng list" where
  "reroutePoints stops pos =
     (let validStops = List.map_filter (\<lambda>x. x) stops
      in if length validStops \<ge> 1
         then (if hd stops \<noteq> None then pos # tl validStops else pos # validStops)
         else [])"

text \<open>
  The strike counter and the reroute trigger (sw.js 741-794). The request itself is
  asynchronous: issuing it appends to \<open>rerouteRequests\<close>; its completion is a later event
  (\<open>rerouteResolved\<close>, \<open>rerouteRejected\<close> below).
\<close>

definition offRouteStage :: "Captured \<Rightarrow> Session \<Rightarrow> Fix \<Rightarrow> real \<Rightarrow> Session" where
  "offRouteStage c s f distanceToLine =
     (let s1 = s\<lparr>offRouteCounterRef :=
                   (if distanceToLine > getOffRouteThreshold (newSpeed f)
                    then offRouteCounterRef s + 1 else 0)\<rparr>
      in if offRouteCounterRef s1 \<ge> 3 \<and> \<not> reroutingRef s1
         then
           if nowMs f - lastRerouteTimeRef s1 > 15000
           then
             let s2 = s1\<lparr>lastRerouteTimeRef := nowMs f, reroutingRef := True\<rparr>;
                 routePoints = reroutePoints (c_stops c) (newPos f)
             in if length routePoints \<ge> 2
                then s2\<lparr>rerouteRequests := rerouteRequests s2 @ [(nowMs f, routePoints)]\<rparr>
                else s2\<lparr>reroutingRef := False, offRouteCounterRef := 0\<rparr>
           else s1
         else s1)"

text \<open>The completion of a reroute request (sw.js 774-788): \<^verbatim>\<open>then\<close> or \<^verbatim>\<open>catch\<close>,
  followed by \<^verbatim>\<open>finally\<close>.\<close>

definition rerouteResolved :: "RouteResponse \<Rightarrow> Session \<Rightarrow> Session" where
  "rerouteResolved res s =
     (setAppStatus NAVIGATING (setRoute (Some res) s))
       \<lparr>reroutingRef := False, offRouteCounterRef := 0\<rparr>"

definition rerouteRejected :: "string \<Rightarrow> Session \<Rightarrow> Session" where
  "rerouteRejected msg s =
     (setAppStatus NAVIGATING (s\<lparr>errorMessage := Some msg\<rparr>))
       \<lparr>reroutingRef := False, offRouteCounterRef := 0\<rparr>"

text \<open>The two correction loops of the tracker (sw.js 802-810).\<close>

function skipForward :: "ManeuverMeta list \<Rightarrow> real \<Rightarrow> real \<Rightarrow> nat \<Rightarrow> nat" where
  "skipForward meta progressDist skipPastThreshold activeIndex =
     (if activeIndex < length meta - 1
         \<and> progressDist - distanceAlong (meta ! activeIndex) > skipPastThreshold
      then skipForward meta progressDist skipPastThreshold (activeIndex + 1)
      else activeIndex)"
  by pat_completeness auto
termination
  by (relation "measure (\<lambda>(meta, progressDist, thr, activeIndex). length meta - activeIndex)") auto

declare skipForward.simps [simp del]

function backtrack :: "ManeuverMeta list \<Rightarrow> real \<Rightarrow> real \<Rightarrow> nat \<Rightarrow> nat" where
  "backtrack meta progressDist backtrackThreshold activeIndex =
     (if activeIndex > 0
         \<and> distanceAlong (meta ! activeIndex) - progressDist > backtrackThreshold
      then backtrack meta progressDist backtrackThreshold (activeIndex - 1)
      else activeIndex)"
  by pat_completeness auto
termination
  by (relation "measure (\<lambda>(meta, progressDist, thr, activeIndex). activeIndex)") auto

declare backtrack.simps [simp del]

text \<open>
  The index arithmetic of the tracker (sw.js 796-848). \<open>correctedIndex\<close> is
  \<^verbatim>\<open>activeIndex\<close> after the clamp and the two loops, \<open>advanceReason\<close> says whether
  \<^verbatim>\<open>advanceReason\<close> is set (and to what), \<open>trackManeuver\<close> is \<^verbatim>\<open>activeIndex\<close> after the
  advance decision.
\<close>

definition correctedIndex :: "ManeuverMeta list \<Rightarrow> nat \<Rightarrow> real \<Rightarrow> real \<Rightarrow> nat" where
  "correctedIndex meta current progressDist speedKmh =
     (let activeIndex = min (max current 0) (length meta - 1);
          skipped = skipForward meta progressDist (getAdvanceThreshold speedKmh + 15) activeIndex
      in backtrack meta progressDist (getAdvanceThreshold speedKmh + 30) skipped)"

datatype AdvanceReason = Passed | BearingMatch

definition advanceReason :: "ManeuverMeta list \<Rightarrow> nat \<Rightarrow> real \<Rightarrow> real \<Rightarrow> real \<Rightarrow> AdvanceReason option" where
  "advanceReason meta activeIndex progressDist headingToUse speedKmh =
     (let distanceToManeuver = distanceAlong (meta ! activeIndex) - progressDist;
          bearingDelta = getBearingDelta headingToUse (postBearing (meta ! activeIndex));
          bearingMatch = (bearingDelta \<le> getBearingThreshold speedKmh);
          advanceThreshold = getAdvanceThreshold speedKmh;
          passedThreshold = 10
      in if distanceToManeuver \<le> - passedThreshold then Some Passed
         else if distanceToManeuver \<le> advanceThreshold \<and> bearingMatch then Some BearingMatch
         else None)"

definition trackManeuver :: "ManeuverMeta list \<Rightarrow> nat \<Rightarrow> real \<Rightarrow> real \<Rightarrow> real \<Rightarrow> nat" where
  "trackManeuver meta current progressDist headingToUse speedKmh =
     (let activeIndex = correctedIndex meta current progressDist speedKmh
      in if advanceReason meta activeIndex progressDist headingToUse speedKmh \<noteq> None
            \<and> activeIndex < length meta - 1
         then activeIndex + 1 else activeIndex)"

text \<open>Publishing the tracker's result (sw.js 850-870).\<close>

definition maneuverStage ::
  "Session \<Rightarrow> Fix \<Rightarrow> ManeuverMeta list \<Rightarrow> real \<Rightarrow> real option \<Rightarrow> Session" where
  "maneuverStage s f meta progressDist finalHeading =
     (let headingToUse = (case finalHeading of Some h \<Rightarrow> h | None \<Rightarrow> smoothedHeadingRef s);
          activeIndex = trackManeuver meta (currentManeuverIndexRef s) progressDist headingToUse
                          (newSpeed f);
          remainingMeters = max 0 (distanceAlong (meta ! activeIndex) - progressDist);
          indexChanged = (activeIndex \<noteq> currentManeuverIndexRef s);
          s1 = (if (case currentManeuverRemainingRef s of
                      None \<Rightarrow> True
                    | Some prevRemaining \<Rightarrow> \<bar>prevRemaining - remainingMeters\<bar> \<ge> 10) \<or> indexChanged
                then s\<lparr>currentManeuverRemainingRef := Some remainingMeters,
                       currentManeuverRemaining := Some remainingMeters\<rparr>
                else s)
      in if indexChanged
         then s1\<lparr>currentManeuverIndexRef := activeIndex, currentManeuverIndex := activeIndex\<rparr>
         else s1)"

text \<open>The last block of \<^verbatim>\<open>updateRiderLocation\<close> (sw.js 730-872).\<close>

definition trackingStage ::
  "Captured \<Rightarrow> Session \<Rightarrow> Fix \<Rightarrow> LatLng \<Rightarrow> real option \<Rightarrow> nat option \<Rightarrow> js_error + Session" where
  "trackingStage c s f finalPos finalHeading currentSegmentIndex =
     (case (if appStatus s = NAVIGATING then route s else None, currentSegmentIndex) of
        (Some routeData, Some k) \<Rightarrow>
          (case polylineDistances (route s) of
             None \<Rightarrow> Inr s
           | Some distances \<Rightarrow>
               if length distances > k \<and> maneuverMeta (route s) \<noteq> [] then
                 (case elemAt (polyline routeData) k of
                    Inl e \<Rightarrow> Inl e
                  | Inr segStart \<Rightarrow>
                      let progressDist = distances ! k + getDistanceMeters segStart finalPos;
                          distanceToLine = getDistanceMeters (newPos f) finalPos;
                          s1 = offRouteStage c s f distanceToLine
                      in Inr (maneuverStage s1 f (maneuverMeta (route s)) progressDist
                                finalHeading))
               else Inr s)
      | _ \<Rightarrow> Inr s)"

text \<open>\<^verbatim>\<open>updateRiderLocation\<close> (sw.js 568-873), without the marker and camera block
  (sw.js 636-728), which writes map refs only.\<close>

definition updateRiderLocation :: "Captured \<Rightarrow> Session \<Rightarrow> Fix \<Rightarrow> js_error + Session" where
  "updateRiderLocation c s f =
     (case snapStage s f of
        (finalPos, heading0, currentSegmentIndex) \<Rightarrow>
          (case lookaheadStage c s f finalPos heading0 currentSegmentIndex of
             Inl e \<Rightarrow> Inl e
           | Inr finalHeading \<Rightarrow>
               let s1 = pendingStage c s f finalPos finalHeading;
                   s2 = commitStage s1 f;
                   s3 = smoothStage c s2
               in trackingStage c s3 f finalPos finalHeading currentSegmentIndex))"


section \<open>Simulator\<close>

text \<open>
  \<^verbatim>\<open>stopSimulation\<close> (sw.js 1149-1159; App.tsx 619-626): \<^verbatim>\<open>cancelAnimationFrame\<close> removes
  the pending frame callback. The pending callback, with the variables of its closure, is
  \<open>simLoop\<close>; \<^term>\<open>None\<close> means that no frame is pending.
\<close>

definition stopSimulation :: "Session \<Rightarrow> Session" where
  "stopSimulation s = s\<lparr>isSimulating := False, simLoop := None\<rparr>"

text \<open>\<^verbatim>\<open>totalDist\<close> (sw.js 1095): the \<^verbatim>\<open>reduce\<close> over the polyline.\<close>

fun totalDistLoop :: "real \<Rightarrow> LatLng \<Rightarrow> LatLng list \<Rightarrow> real" where
  "totalDistLoop acc prev [] = acc"
| "totalDistLoop acc prev (p # ps) = totalDistLoop (acc + getDistanceMeters prev p) p ps"

fun totalDist :: "LatLng list \<Rightarrow> real" where
  "totalDist [] = 0"
| "totalDist (p # ps) = totalDistLoop 0 p ps"

text \<open>
  \<^verbatim>\<open>startSimulation\<close> (sw.js 1071-1147; the guard is also App.tsx 535). \<open>c\<close> holds the
  values the closure of \<^verbatim>\<open>animate\<close> captures from the render in which the button was
  pressed. \<^verbatim>\<open>setCurrentManeuverIndex(0)\<close> also resets the ref through the effect at
  sw.js 203.
\<close>

definition startSimulation :: "Captured \<Rightarrow> Session \<Rightarrow> Session" where
  "startSimulation c s =
     (case route s of
        None \<Rightarrow> s
      | Some routeData \<Rightarrow>
          if length (polyline routeData) < 2 then s
          else
            let remaining =
                  (case maneuverMeta (route s) of
                     m # _ \<Rightarrow> Some (distanceAlong m)
                   | [] \<Rightarrow> (case maneuvers routeData of
                              m # _ \<Rightarrow> Some (Maneuver.distance m)
                            | [] \<Rightarrow> None))
            in (setAppStatus NAVIGATING (s\<lparr>isSimulating := True, isFollowing := True\<rparr>))
                 \<lparr>zoomLevel := 17.5,
                  distanceRef := 0,
                  currentManeuverIndex := 0,
                  currentManeuverIndexRef := 0,
                  currentManeuverRemainingRef := remaining,
                  currentManeuverRemaining := remaining,
                  simLastTimeRef := None,
                  simLastDistRef := 0,
                  simLoop := Some \<lparr>simCaptured = c, simPoly = polyline routeData,
                                   simTotalDist = totalDist (polyline routeData),
                                   simRouteDistance = distance routeData,
                                   frameCount = 0\<rparr>\<rparr>)"

text \<open>The search for the segment that holds the travelled distance (sw.js 1114-1119):
  the result is \<^verbatim>\<open>accumulated\<close> and \<^verbatim>\<open>segIdx\<close>, which stays 0 when the loop ends without
  \<^verbatim>\<open>break\<close>.\<close>

fun locateLoop :: "nat \<Rightarrow> LatLng list \<Rightarrow> real \<Rightarrow> real \<Rightarrow> real \<times> nat" where
  "locateLoop i (a # b # rest) accumulated travelled =
     (let d = getDistanceMeters a b
      in if accumulated + d \<ge> travelled then (accumulated, i)
         else locateLoop (i + 1) (b # rest) (accumulated + d) travelled)"
| "locateLoop i line accumulated travelled = (accumulated, 0)"

definition js_round :: "real \<Rightarrow> real" where
  "js_round x = of_int \<lfloor>x + 1 / 2\<rfloor>"

text \<open>
  The fix that \<^verbatim>\<open>animate\<close> hands to the fix handler (sw.js 1121-1141): the position
  interpolated on the segment from \<open>a\<close> to \<open>b\<close>, the bearing toward a point 5 percent
  further along the segment, and the speed derived from the progress since the last
  frame. \<open>s1\<close> is the session after \<^verbatim>\<open>distanceRef\<close> was advanced.
\<close>

definition simulatedFix ::
  "SimLoop \<Rightarrow> Session \<Rightarrow> real \<Rightarrow> int \<Rightarrow> int \<Rightarrow> LatLng \<Rightarrow> LatLng \<Rightarrow> real \<Rightarrow> Fix" where
  "simulatedFix cl s1 perfNow t tMs a b accumulated =
     (let prog = (distanceRef s1 - accumulated) / getDistanceMeters a b;
          currentLoc = interpolate a b prog;
          lookAheadProg = min 1.0 (prog + 0.05);
          lookAheadLoc = interpolate a b lookAheadProg;
          simBearing = calculateBearing currentLoc lookAheadLoc;
          speedValue =
            (case simLastTimeRef s1 of
               None \<Rightarrow> c_speed (simCaptured cl)
             | Some lastTime \<Rightarrow>
                 let deltaTimeSec = (perfNow - lastTime) / 1000
                 in if deltaTimeSec > 0
                    then
                      let deltaDist = distanceRef s1 - simLastDistRef s1;
                          deltaMeters = (deltaDist / simTotalDist cl) * simRouteDistance cl;
                          kmh = (deltaMeters / deltaTimeSec) * 3.6
                      in max 0 (js_round kmh)
                    else c_speed (simCaptured cl))
      in \<lparr>newPos = currentLoc, rawHeading = Some simBearing, newSpeed = speedValue,
          now = t, nowMs = tMs\<rparr>)"

text \<open>
  One call of the frame callback \<^verbatim>\<open>animate\<close> (sw.js 1099-1144) with the closure \<open>cl\<close>.
  \<open>perfNow\<close> is the reading of \<^verbatim>\<open>performance.now()\<close>, \<open>t\<close> and \<open>tMs\<close> are the two
  \<^verbatim>\<open>Date.now()\<close> readings of the fix handler. The callback that runs is no longer
  pending; \<^verbatim>\<open>requestAnimationFrame(animate)\<close> makes it pending again.
\<close>

definition animate :: "SimLoop \<Rightarrow> real \<Rightarrow> int \<Rightarrow> int \<Rightarrow> Session \<Rightarrow> js_error + Session" where
  "animate cl perfNow t tMs s =
     (let cl1 = cl\<lparr>frameCount := frameCount cl + 1\<rparr>
      in if frameCount cl1 mod 2 \<noteq> 0 then Inr (s\<lparr>simLoop := Some cl1\<rparr>)
         else
           let s1 = s\<lparr>simLoop := None, distanceRef := distanceRef s + 0.8\<rparr>
           in if distanceRef s1 \<ge> simTotalDist cl1
              then Inr (setAppStatus ARRIVED (stopSimulation s1))
              else
                case locateLoop 0 (simPoly cl1) 0 (distanceRef s1) of
                  (accumulated, segIdx) \<Rightarrow>
                    (case elemAt (simPoly cl1) segIdx of
                       Inl e \<Rightarrow> Inl e
                     | Inr a \<Rightarrow>
                         (case elemAt (simPoly cl1) (segIdx + 1) of
                            Inl e \<Rightarrow> Inl e
                          | Inr b \<Rightarrow>
                              let fx = simulatedFix cl1 s1 perfNow t tMs a b accumulated;
                                  s2 = s1\<lparr>simLastTimeRef := Some perfNow,
                                          simLastDistRef := distanceRef s1\<rparr>
                              in case updateRiderLocation (simCaptured cl1) s2 fx of
                                   Inl e \<Rightarrow> Inl e
                                 | Inr s3 \<Rightarrow> Inr (s3\<lparr>simLoop := Some cl1\<rparr>))))"

section \<open>Events\<close>

text \<open>
  The component is single-threaded: it handles one event at a time. The events that touch
  the session are a fix of the location watch (sw.js 1019-1024), an animation frame (it
  runs the pending \<^verbatim>\<open>animate\<close> callback, if there is one), the completion of a reroute
  request, the button that starts the simulation (sw.js 1639), the button that starts a
  real ride (sw.js 1638: \<^verbatim>\<open>setAppStatus(NAVIGATING); setIsFollowing(true);
  setZoomLevel(17.5)\<close>), the button that ends navigation (sw.js 1673) and a newly planned
  route (\<^verbatim>\<open>setRoute(res); setAppStatus(CONFIRM)\<close>, sw.js 1181-1182; the map part of that
  handler is left out).
\<close>

datatype Event =
    GpsFix Captured Fix
  | AnimationFrame real int int
  | RerouteResolved RouteResponse
  | RerouteRejected string
  | StartSimulation Captured
  | StartRealRide
  | StopNavigation
  | RoutePlanned RouteResponse

fun step :: "Session \<Rightarrow> Event \<Rightarrow> js_error + Session" where
  "step s (GpsFix c f) = updateRiderLocation c s f"
| "step s (AnimationFrame perfNow t tMs) =
     (case simLoop s of None \<Rightarrow> Inr s | Some cl \<Rightarrow> animate cl perfNow t tMs s)"
| "step s (RerouteResolved res) = Inr (rerouteResolved res s)"
| "step s (RerouteRejected msg) = Inr (rerouteRejected msg s)"
| "step s (StartSimulation c) = Inr (startSimulation c s)"
| "step s StartRealRide =
     Inr ((setAppStatus NAVIGATING s)\<lparr>isFollowing := True, zoomLevel := 17.5\<rparr>)"
| "step s StopNavigation = Inr (setAppStatus IDLE (stopSimulation s))"
| "step s (RoutePlanned res) = Inr (setAppStatus CONFIRM (setRoute (Some res) s))"

fun run :: "Session \<Rightarrow> Event list \<Rightarrow> js_error + Session" where
  "run s [] = Inr s"
| "run s (e # es) = (case step s e of Inl err \<Rightarrow> Inl err | Inr s' \<Rightarrow> run s' es)"


section \<open>The simulator's maneuver distances in the Leaflet revision\<close>

text \<open>
  \<^verbatim>\<open>maneuverDistances\<close> (App.tsx 555-560): the simulator of the first revision keeps,
  for each maneuver, the sum of the step distances of the maneuvers before it.
\<close>

fun maneuverDistancesLoop :: "real \<Rightarrow> Maneuver list \<Rightarrow> real list" where
  "maneuverDistancesLoop cumulativeDist [] = []"
| "maneuverDistancesLoop cumulativeDist (m # ms) =
     cumulativeDist # maneuverDistancesLoop (cumulativeDist + Maneuver.distance m) ms"

definition maneuverDistances :: "RouteResponse \<Rightarrow> real list" where
  "maneuverDistances routeData = maneuverDistancesLoop 0 (maneuvers routeData)"

section \<open>Notions used in the statements\<close>





text \<open>\<open>spaced g l ts\<close>: starting from \<open>l\<close>, each time of \<open>ts\<close> is at least \<open>g\<close> after the
  one before it.\<close>

fun spaced :: "int \<Rightarrow> int \<Rightarrow> int list \<Rightarrow> bool" where
  "spaced g l [] = True"
| "spaced g l (t # ts) = (t - l \<ge> g \<and> spaced g t ts)"


text \<open>
  \<open>committed s s' new\<close>: between \<open>s\<close> and \<open>s'\<close> the commits \<open>new\<close> were made, each at
  least 100 ms after the one before it (the first one after \<open>lastStateUpdateTimeRef s\<close>),
  and without a commit the rider state is unchanged. \<open>requested s s' new\<close>: between \<open>s\<close>
  and \<open>s'\<close> the reroute requests \<open>new\<close> were issued, each more than 15000 ms after the
  one before it.
\<close>

definition committed :: "Session \<Rightarrow> Session \<Rightarrow> (int \<times> LatLng option \<times> real) list \<Rightarrow> bool" where
  "committed s s' new =
     (commitLog s' = commitLog s @ new
      \<and> spaced 100 (lastStateUpdateTimeRef s) (map fst new)
      \<and> lastStateUpdateTimeRef s' = last (lastStateUpdateTimeRef s # map fst new)
      \<and> (new = [] \<longrightarrow> currentPos s' = currentPos s \<and> speed s' = speed s \<and> heading s' = heading s))"

definition requested :: "Session \<Rightarrow> Session \<Rightarrow> (int \<times> LatLng list) list \<Rightarrow> bool" where
  "requested s s' new =
     (rerouteRequests s' = rerouteRequests s @ new
      \<and> spaced 15001 (lastRerouteTimeRef s) (map fst new)
      \<and> last (lastRerouteTimeRef s # map fst new) \<le> lastRerouteTimeRef s')"

section \<open>Example inputs\<close>

text \<open>
  Inputs used in the examples below: the values captured by a fix handler created outside
  the simulation, a fix at 50 km/h and one at 1 km/h with compass heading 90, 200 ms apart,
  and a route with a two-point polyline and no maneuvers.
\<close>

definition idleCaptured :: Captured where
  "idleCaptured = \<lparr>c_isSimulating = False, c_heading = 0, c_speed = 0, c_stops = []\<rparr>"

definition fastFix :: Fix where
  "fastFix = \<lparr>newPos = \<lparr>lat = 52, lng = 5\<rparr>, rawHeading = Some 90, newSpeed = 50,
              now = 1000, nowMs = 1000\<rparr>"

definition slowFix :: Fix where
  "slowFix = \<lparr>newPos = \<lparr>lat = 52, lng = 5\<rparr>, rawHeading = Some 90, newSpeed = 1,
              now = 1200, nowMs = 1200\<rparr>"

definition noManeuverRoute :: RouteResponse where
  "noManeuverRoute =
     \<lparr>polyline = [\<lparr>lat = 52, lng = 5\<rparr>, \<lparr>lat = 52, lng = 6\<rparr>], distance = 68000, duration = 3600,
      maneuvers = []\<rparr>"

section \<open>Angles\<close>


lemma js_rem_shift:
  assumes "0 \<le> t" "t < 360"
  shows "js_rem (t + 360 * of_nat n) 360 = t"
proof -
  have eq: "(t + 360 * of_nat n) / 360 = t / 360 + of_nat n" by (simp add: field_simps)
  have fl: "\<lfloor>t / 360 + of_nat n\<rfloor> = int n"
    using assms by (intro floor_unique) (simp_all add: field_simps)
  have nn: "0 \<le> t / 360 + of_nat n" using assms by simp
  show ?thesis
    unfolding js_rem_def js_trunc_def eq fl using nn by simp
qed

lemma js_rem_small: "0 \<le> t \<Longrightarrow> t < 360 \<Longrightarrow> js_rem t 360 = t"
  using js_rem_shift [of t 0] by simp


lemma wrapDiff_cases:
  "wrapDiff d = (if d > 180 then (if d - 360 < - 180 then d else d - 360)
                 else if d < - 180 then d + 360 else d)"
  by (auto simp: wrapDiff_def Let_def)







section \<open>The snapper\<close>









lemma nearestLoop_degenerate:
  assumes "\<forall>i. i + 1 < length line \<longrightarrow>
             lng (line ! (i + 1)) - lng (line ! i) = 0 \<and> lat (line ! (i + 1)) - lat (line ! i) = 0"
  shows "nearestLoop p k line m best = best"
  using assms
proof (induction line arbitrary: k)
  case Nil
  then show ?case by simp
next
  case (Cons a line)
  show ?case
  proof (cases line)
    case Nil
    then show ?thesis by simp
  next
    case (Cons b rest)
    from Cons.prems [rule_format, of 0] have ab: "lng b - lng a = 0 \<and> lat b - lat a = 0"
      by (simp add: Cons)
    have "\<forall>i. i + 1 < length line \<longrightarrow>
             lng (line ! (i + 1)) - lng (line ! i) = 0 \<and> lat (line ! (i + 1)) - lat (line ! i) = 0"
    proof (intro allI impI)
      fix i assume "i + 1 < length line"
      then show "lng (line ! (i + 1)) - lng (line ! i) = 0 \<and> lat (line ! (i + 1)) - lat (line ! i) = 0"
        using Cons.prems [rule_format, of "Suc i"] by simp
    qed
    from Cons.IH [OF this, of "k + 1"] ab show ?thesis
      unfolding Cons by simp
  qed
qed

text \<open>
  Claim C10. If the polyline has fewer than two vertices, or every pair of consecutive
  vertices is degenerate (both coordinate differences are zero), the snapper returns the
  input point itself, bearing 0 and segment index 0. The snapper is a total function.
\<close>

theorem C10_snap_degenerate_polyline:
  assumes "length line < 2
         \<or> (\<forall>i. i + 1 < length line \<longrightarrow>
               lng (line ! (i + 1)) - lng (line ! i) = 0 \<and> lat (line ! (i + 1)) - lat (line ! i) = 0)"
  shows "getNearestPointOnLine p line = \<lparr>point = p, bearing = 0, segmentIndex = 0\<rparr>"
proof -
  have "\<forall>i. i + 1 < length line \<longrightarrow>
          lng (line ! (i + 1)) - lng (line ! i) = 0 \<and> lat (line ! (i + 1)) - lat (line ! i) = 0"
    using assms by auto
  then show ?thesis
    unfolding getNearestPointOnLine_def by (rule nearestLoop_degenerate)
qed

theorem C10_snap_degenerate_polyline_witness:
  "getNearestPointOnLine \<lparr>lat = 1, lng = 2\<rparr> [] = \<lparr>point = \<lparr>lat = 1, lng = 2\<rparr>, bearing = 0, segmentIndex = 0\<rparr>
   \<and> getNearestPointOnLine \<lparr>lat = 1, lng = 2\<rparr> [\<lparr>lat = 5, lng = 5\<rparr>, \<lparr>lat = 5, lng = 5\<rparr>, \<lparr>lat = 5, lng = 5\<rparr>]
       = \<lparr>point = \<lparr>lat = 1, lng = 2\<rparr>, bearing = 0, segmentIndex = 0\<rparr>"
proof -
  have "\<forall>i. i + 1 < length [\<lparr>lat = 5, lng = 5\<rparr>, \<lparr>lat = 5, lng = 5\<rparr>, \<lparr>lat = 5::real, lng = 5::real\<rparr>] \<longrightarrow>
          lng ([\<lparr>lat = 5, lng = 5\<rparr>, \<lparr>lat = 5, lng = 5\<rparr>, \<lparr>lat = 5::real, lng = 5::real\<rparr>] ! (i + 1))
            - lng ([\<lparr>lat = 5, lng = 5\<rparr>, \<lparr>lat = 5, lng = 5\<rparr>, \<lparr>lat = 5::real, lng = 5::real\<rparr>] ! i) = 0
        \<and> lat ([\<lparr>lat = 5, lng = 5\<rparr>, \<lparr>lat = 5, lng = 5\<rparr>, \<lparr>lat = 5::real, lng = 5::real\<rparr>] ! (i + 1))
            - lat ([\<lparr>lat = 5, lng = 5\<rparr>, \<lparr>lat = 5, lng = 5\<rparr>, \<lparr>lat = 5::real, lng = 5::real\<rparr>] ! i) = 0"
    by (auto simp: nth_Cons split: nat.splits)
  then show ?thesis
    using C10_snap_degenerate_polyline [of "[]" "\<lparr>lat = 1, lng = 2\<rparr>"]
      C10_snap_degenerate_polyline
        [of "[\<lparr>lat = 5, lng = 5\<rparr>, \<lparr>lat = 5, lng = 5\<rparr>, \<lparr>lat = 5, lng = 5\<rparr>]" "\<lparr>lat = 1, lng = 2\<rparr>"]
    by simp
qed



section \<open>The route index\<close>

lemma js_atan2_nonneg: "0 \<le> y \<Longrightarrow> 0 \<le> js_atan2 y x"
proof -
  assume y: "0 \<le> y"
  have "- (pi / 2) < arctan (y / x)" by (rule arctan_lbound)
  then have neg: "0 \<le> arctan (y / x) + pi" using pi_gt_zero by linarith
  have pos: "0 < x \<Longrightarrow> 0 \<le> arctan (y / x)" using y by (simp add: zero_le_arctan_iff)
  show ?thesis
    unfolding js_atan2_def using y neg pos by auto
qed

lemma cos_deg_nonneg: "\<bar>d\<bar> \<le> 90 \<Longrightarrow> 0 \<le> cos (d * pi / 180)"
proof -
  assume "\<bar>d\<bar> \<le> 90"
  then have d: "- 90 \<le> d" "d \<le> 90" by auto
  have "(- 90) * pi \<le> d * pi" "d * pi \<le> 90 * pi"
    using d pi_gt_zero by (simp_all only: mult_le_cancel_right) auto
  then have "- (pi / 2) \<le> d * pi / 180" "d * pi / 180 \<le> pi / 2"
    by simp_all
  then show ?thesis by (rule cos_ge_zero)
qed

lemma getDistanceMeters_nonneg:
  assumes "\<bar>lat p1\<bar> \<le> 90" "\<bar>lat p2\<bar> \<le> 90"
  shows "0 \<le> getDistanceMeters p1 p2"
proof -
  let ?a = "sin ((lat p2 - lat p1) * pi / 180 / 2) * sin ((lat p2 - lat p1) * pi / 180 / 2)
            + cos (lat p1 * pi / 180) * cos (lat p2 * pi / 180)
              * sin ((lng p2 - lng p1) * pi / 180 / 2) * sin ((lng p2 - lng p1) * pi / 180 / 2)"
  have cc: "0 \<le> cos (lat p1 * pi / 180) * cos (lat p2 * pi / 180)"
    using cos_deg_nonneg [OF assms(1)] cos_deg_nonneg [OF assms(2)] by simp
  have ss: "0 \<le> sin ((lng p2 - lng p1) * pi / 180 / 2) * sin ((lng p2 - lng p1) * pi / 180 / 2)"
    by simp
  have "0 \<le> cos (lat p1 * pi / 180) * cos (lat p2 * pi / 180)
              * (sin ((lng p2 - lng p1) * pi / 180 / 2) * sin ((lng p2 - lng p1) * pi / 180 / 2))"
    using cc ss by (rule mult_nonneg_nonneg)
  moreover have "0 \<le> sin ((lat p2 - lat p1) * pi / 180 / 2) * sin ((lat p2 - lat p1) * pi / 180 / 2)"
    by simp
  ultimately have "0 \<le> ?a" by (simp only: mult.assoc add_nonneg_nonneg)
  then have "0 \<le> js_atan2 (sqrt ?a) (sqrt (1 - ?a))"
    by (intro js_atan2_nonneg) simp
  then show ?thesis
    unfolding getDistanceMeters_def Let_def by simp
qed

lemma cumulativeFrom_ge:
  "\<forall>q\<in>set (prev # ps). \<bar>lat q\<bar> \<le> 90 \<Longrightarrow> x \<in> set (cumulativeFrom acc prev ps) \<Longrightarrow> acc \<le> x"
proof (induction ps arbitrary: acc prev)
  case Nil
  then show ?case by simp
next
  case (Cons p ps)
  have d: "0 \<le> getDistanceMeters prev p"
    using Cons.prems(1) by (intro getDistanceMeters_nonneg) simp_all
  from Cons.prems(2) consider "x = acc + getDistanceMeters prev p"
    | "x \<in> set (cumulativeFrom (acc + getDistanceMeters prev p) p ps)"
    by (auto simp: Let_def)
  then show ?case
  proof cases
    case 1
    with d show ?thesis by simp
  next
    case 2
    have "acc + getDistanceMeters prev p \<le> x"
      using Cons.prems(1) by (intro Cons.IH [OF _ 2]) simp
    with d show ?thesis by simp
  qed
qed

lemma cumulativeFrom_sorted:
  "\<forall>q\<in>set (prev # ps). \<bar>lat q\<bar> \<le> 90 \<Longrightarrow> sorted (cumulativeFrom acc prev ps)"
proof (induction ps arbitrary: acc prev)
  case Nil
  then show ?case by simp
next
  case (Cons p ps)
  have all: "\<forall>q\<in>set (p # ps). \<bar>lat q\<bar> \<le> 90" using Cons.prems by simp
  show ?case
    using Cons.IH [OF all] cumulativeFrom_ge [OF all]
    by (auto simp: Let_def)
qed

lemma cumulativeDistances_sorted:
  assumes "\<forall>q\<in>set line. \<bar>lat q\<bar> \<le> 90"
  shows "sorted (cumulativeDistances line)"
proof (cases line)
  case Nil
  then show ?thesis by simp
next
  case (Cons p ps)
  have all: "\<forall>q\<in>set (p # ps). \<bar>lat q\<bar> \<le> 90" using assms Cons by simp
  show ?thesis
    unfolding Cons using cumulativeFrom_sorted [OF all] cumulativeFrom_ge [OF all]
    by auto
qed

lemma length_cumulativeFrom: "length (cumulativeFrom acc prev ps) = length ps"
  by (induction ps arbitrary: acc prev) (simp_all add: Let_def)

lemma length_cumulativeDistances: "length (cumulativeDistances line) = length line"
  by (cases line) (simp_all add: length_cumulativeFrom)

lemma metaLoop_Cons:
  "\<exists>m0. metaLoop r ds sc (a # ms) cum prev = m0 # metaLoop r ds sc ms (cum + Maneuver.distance a) (Some m0)
       \<and> (\<forall>pm. prev = Some pm \<longrightarrow> distanceAlong pm \<le> distanceAlong m0)"
  by (cases prev) (simp_all add: Let_def)

lemma metaLoop_sorted:
  "sorted (map distanceAlong (metaLoop r ds sc ms cum prev))
   \<and> (\<forall>pm. prev = Some pm \<longrightarrow> (\<forall>m\<in>set (metaLoop r ds sc ms cum prev). distanceAlong pm \<le> distanceAlong m))"
proof (induction ms arbitrary: cum prev)
  case Nil
  then show ?case by simp
next
  case (Cons a ms)
  obtain m0 where m0: "metaLoop r ds sc (a # ms) cum prev
                         = m0 # metaLoop r ds sc ms (cum + Maneuver.distance a) (Some m0)"
    and pm: "\<forall>pm. prev = Some pm \<longrightarrow> distanceAlong pm \<le> distanceAlong m0"
    using metaLoop_Cons [of r ds sc a ms cum prev] by (elim exE conjE)
  note IH = Cons.IH [of "cum + Maneuver.distance a" "Some m0"]
  from IH have srt: "sorted (map distanceAlong (metaLoop r ds sc ms (cum + Maneuver.distance a) (Some m0)))"
    and ge: "\<forall>m\<in>set (metaLoop r ds sc ms (cum + Maneuver.distance a) (Some m0)).
               distanceAlong m0 \<le> distanceAlong m"
    by simp_all
  have "sorted (map distanceAlong (m0 # metaLoop r ds sc ms (cum + Maneuver.distance a) (Some m0)))"
    using srt ge by simp
  moreover have "\<forall>pm. prev = Some pm \<longrightarrow>
      (\<forall>m\<in>set (m0 # metaLoop r ds sc ms (cum + Maneuver.distance a) (Some m0)).
          distanceAlong pm \<le> distanceAlong m)"
  proof (intro allI impI ballI)
    fix pm m
    assume p: "prev = Some pm"
      and m: "m \<in> set (m0 # metaLoop r ds sc ms (cum + Maneuver.distance a) (Some m0))"
    from p pm have le0: "distanceAlong pm \<le> distanceAlong m0" by simp
    from m consider "m = m0" | "m \<in> set (metaLoop r ds sc ms (cum + Maneuver.distance a) (Some m0))"
      by auto
    then show "distanceAlong pm \<le> distanceAlong m"
    proof cases
      case 1
      with le0 show ?thesis by simp
    next
      case 2
      with ge have "distanceAlong m0 \<le> distanceAlong m" by simp
      with le0 show ?thesis by simp
    qed
  qed
  ultimately show ?case unfolding m0 by (rule conjI)
qed

lemma maneuverMeta_sorted: "sorted (map distanceAlong (maneuverMeta r))"
  by (cases r) (simp_all add: maneuverMeta_def buildManeuverMeta_def Let_def metaLoop_sorted)

lemma maneuverDistancesLoop_sorted:
  "\<forall>m\<in>set ms. 0 \<le> Maneuver.distance m \<Longrightarrow>
     sorted (maneuverDistancesLoop c ms) \<and> (\<forall>x\<in>set (maneuverDistancesLoop c ms). c \<le> x)"
proof (induction ms arbitrary: c)
  case Nil
  then show ?case by simp
next
  case (Cons m ms)
  have "sorted (maneuverDistancesLoop (c + Maneuver.distance m) ms)
        \<and> (\<forall>x\<in>set (maneuverDistancesLoop (c + Maneuver.distance m) ms). c + Maneuver.distance m \<le> x)"
    using Cons.prems by (intro Cons.IH) simp
  moreover have "0 \<le> Maneuver.distance m" using Cons.prems by simp
  ultimately show ?case by auto
qed

text \<open>
  Claim C7. For every route whose polyline latitudes are valid (between -90 and 90
  degrees) the cumulative distance table is non-decreasing in its index; it has one entry
  per polyline point and starts with 0. The \<open>distanceAlong\<close> values of the maneuver meta are
  non-decreasing in the maneuver index for every route (each value is clamped forward to
  the one before it). The maneuver distances of the Leaflet revision's simulator, built by
  accumulating the step distances, are non-decreasing when the step distances are
  non-negative.
\<close>

theorem C7_distance_monotonicity:
  "((\<forall>q\<in>set (polyline r). \<bar>lat q\<bar> \<le> 90) \<longrightarrow>
      (\<forall>i j. i \<le> j \<and> j < length (cumulativeDistances (polyline r)) \<longrightarrow>
         cumulativeDistances (polyline r) ! i \<le> cumulativeDistances (polyline r) ! j))
   \<and> (\<forall>i j. i \<le> j \<and> j < length (maneuverMeta (Some r)) \<longrightarrow>
         distanceAlong (maneuverMeta (Some r) ! i) \<le> distanceAlong (maneuverMeta (Some r) ! j))
   \<and> ((\<forall>m\<in>set (maneuvers r). 0 \<le> Maneuver.distance m) \<longrightarrow>
      (\<forall>i j. i \<le> j \<and> j < length (maneuverDistances r) \<longrightarrow>
         maneuverDistances r ! i \<le> maneuverDistances r ! j))
   \<and> length (cumulativeDistances (polyline r)) = length (polyline r)
   \<and> (polyline r \<noteq> [] \<longrightarrow> cumulativeDistances (polyline r) ! 0 = 0)"
proof -
  have a: "(\<forall>q\<in>set (polyline r). \<bar>lat q\<bar> \<le> 90) \<longrightarrow>
      (\<forall>i j. i \<le> j \<and> j < length (cumulativeDistances (polyline r)) \<longrightarrow>
         cumulativeDistances (polyline r) ! i \<le> cumulativeDistances (polyline r) ! j)"
    using cumulativeDistances_sorted [of "polyline r"] by (auto simp: sorted_iff_nth_mono)
  have "\<forall>i j. i \<le> j \<and> j < length (map distanceAlong (maneuverMeta (Some r))) \<longrightarrow>
         map distanceAlong (maneuverMeta (Some r)) ! i \<le> map distanceAlong (maneuverMeta (Some r)) ! j"
    using maneuverMeta_sorted [of "Some r"] unfolding sorted_iff_nth_mono by blast
  then have b: "\<forall>i j. i \<le> j \<and> j < length (maneuverMeta (Some r)) \<longrightarrow>
         distanceAlong (maneuverMeta (Some r) ! i) \<le> distanceAlong (maneuverMeta (Some r) ! j)"
    by auto
  have c: "(\<forall>m\<in>set (maneuvers r). 0 \<le> Maneuver.distance m) \<longrightarrow>
      (\<forall>i j. i \<le> j \<and> j < length (maneuverDistances r) \<longrightarrow>
         maneuverDistances r ! i \<le> maneuverDistances r ! j)"
    using maneuverDistancesLoop_sorted [of "maneuvers r" 0]
    by (auto simp: maneuverDistances_def sorted_iff_nth_mono)
  have d: "polyline r \<noteq> [] \<longrightarrow> cumulativeDistances (polyline r) ! 0 = 0"
    by (cases "polyline r") simp_all
  from a b c d length_cumulativeDistances [of "polyline r"] show ?thesis by blast
qed

theorem C7_distance_monotonicity_witness:
  "let r = \<lparr>polyline = [\<lparr>lat = 0, lng = 0\<rparr>, \<lparr>lat = 0, lng = 1\<rparr>], distance = 100, duration = 10,
             maneuvers = [\<lparr>Maneuver.distance = 60, location = None, roadName = None\<rparr>,
                          \<lparr>Maneuver.distance = 40, location = None, roadName = None\<rparr>]\<rparr>
   in (\<forall>q\<in>set (polyline r). \<bar>lat q\<bar> \<le> 90)
      \<and> (0::nat) \<le> 1 \<and> 1 < length (cumulativeDistances (polyline r))
      \<and> cumulativeDistances (polyline r) ! 0 \<le> cumulativeDistances (polyline r) ! 1
      \<and> 1 < length (maneuverMeta (Some r))
      \<and> distanceAlong (maneuverMeta (Some r) ! 0) \<le> distanceAlong (maneuverMeta (Some r) ! 1)
      \<and> (\<forall>m\<in>set (maneuvers r). 0 \<le> Maneuver.distance m)
      \<and> 1 < length (maneuverDistances r)
      \<and> maneuverDistances r ! 0 \<le> maneuverDistances r ! 1
      \<and> polyline r \<noteq> [] \<and> cumulativeDistances (polyline r) ! 0 = 0"
proof -
  let ?r = "\<lparr>polyline = [\<lparr>lat = 0, lng = 0\<rparr>, \<lparr>lat = 0, lng = 1\<rparr>], distance = 100, duration = 10,
             maneuvers = [\<lparr>Maneuver.distance = 60, location = None, roadName = None\<rparr>,
                          \<lparr>Maneuver.distance = 40, location = None, roadName = None\<rparr>]\<rparr>"
  have h1: "\<forall>q\<in>set (polyline ?r). \<bar>lat q\<bar> \<le> 90" by simp
  have h2: "1 < length (cumulativeDistances (polyline ?r))" by (simp add: Let_def)
  have h3: "1 < length (maneuverMeta (Some ?r))"
    by (simp add: maneuverMeta_def buildManeuverMeta_def Let_def)
  have h4: "\<forall>m\<in>set (maneuvers ?r). 0 \<le> Maneuver.distance m" by simp
  have h5: "1 < length (maneuverDistances ?r)" by (simp add: maneuverDistances_def)
  have h6: "polyline ?r \<noteq> []" by simp
  note inst = C7_distance_monotonicity [of ?r]
  from inst h1 h2 have c1: "cumulativeDistances (polyline ?r) ! 0 \<le> cumulativeDistances (polyline ?r) ! 1"
    by (metis zero_le_one)
  from inst h3 have c2: "distanceAlong (maneuverMeta (Some ?r) ! 0) \<le> distanceAlong (maneuverMeta (Some ?r) ! 1)"
    by (metis zero_le_one)
  from inst h4 h5 have c3: "maneuverDistances ?r ! 0 \<le> maneuverDistances ?r ! 1"
    by (metis zero_le_one)
  from inst h6 have c4: "cumulativeDistances (polyline ?r) ! 0 = 0" by blast
  show ?thesis
    unfolding Let_def using h1 h2 h3 h4 h5 h6 c1 c2 c3 c4 by blast
qed

section \<open>The maneuver tracker\<close>

lemma getAdvanceThreshold_ge: "20 \<le> getAdvanceThreshold v"
  by (simp add: getAdvanceThreshold_def)

lemma skipForward_stay:
  "\<not> (progressDist - distanceAlong (meta ! a) > thr) \<Longrightarrow> skipForward meta progressDist thr a = a"
  by (subst skipForward.simps) simp

lemma backtrack_stay:
  "\<not> (distanceAlong (meta ! a) - progressDist > thr) \<Longrightarrow> backtrack meta progressDist thr a = a"
  by (subst backtrack.simps) simp

lemma skipForward_bound: "a < length meta \<Longrightarrow> skipForward meta progressDist thr a < length meta"
proof (induction meta progressDist thr a rule: skipForward.induct)
  case (1 meta progressDist thr a)
  show ?case
  proof (cases "a < length meta - 1 \<and> progressDist - distanceAlong (meta ! a) > thr")
    case True
    then have "skipForward meta progressDist thr (a + 1) < length meta"
      by (intro "1.IH") auto
    with True show ?thesis by (subst skipForward.simps) simp
  next
    case False
    with "1.prems" show ?thesis by (subst skipForward.simps) auto
  qed
qed

lemma backtrack_bound: "backtrack meta progressDist thr a \<le> a"
proof (induction meta progressDist thr a rule: backtrack.induct)
  case (1 meta progressDist thr a)
  show ?case
  proof (cases "a > 0 \<and> distanceAlong (meta ! a) - progressDist > thr")
    case True
    then have "backtrack meta progressDist thr (a - 1) \<le> a - 1"
      by (intro "1.IH") auto
    with True show ?thesis by (subst backtrack.simps) simp
  next
    case False
    then show ?thesis by (subst backtrack.simps) auto
  qed
qed

lemma correctedIndex_bound:
  assumes "meta \<noteq> []"
  shows "correctedIndex meta current progressDist v < length meta"
proof -
  have "min (max current 0) (length meta - 1) < length meta"
    using assms by (cases meta) auto
  then have "skipForward meta progressDist (getAdvanceThreshold v + 15)
               (min (max current 0) (length meta - 1)) < length meta"
    by (rule skipForward_bound)
  then show ?thesis
    unfolding correctedIndex_def Let_def
    using backtrack_bound [of meta progressDist "getAdvanceThreshold v + 30"
        "skipForward meta progressDist (getAdvanceThreshold v + 15) (min (max current 0) (length meta - 1))"]
    by linarith
qed

lemma trackManeuver_bound:
  assumes "meta \<noteq> []"
  shows "trackManeuver meta current progressDist h v < length meta"
  using correctedIndex_bound [OF assms, of current progressDist v]
  by (auto simp: trackManeuver_def Let_def)

lemma correctedIndex_stay:
  assumes "current < length meta"
    and "- 10 < distanceAlong (meta ! current) - progressDist"
    and "distanceAlong (meta ! current) - progressDist \<le> getAdvanceThreshold v"
  shows "correctedIndex meta current progressDist v = current"
proof -
  have clamp: "min (max current 0) (length meta - 1) = current"
    using assms(1) by auto
  have "\<not> (progressDist - distanceAlong (meta ! current) > getAdvanceThreshold v + 15)"
    using assms(2) getAdvanceThreshold_ge [of v] by linarith
  then have sk: "skipForward meta progressDist (getAdvanceThreshold v + 15) current = current"
    by (rule skipForward_stay)
  have "\<not> (distanceAlong (meta ! current) - progressDist > getAdvanceThreshold v + 30)"
    using assms(3) by linarith
  then have bt: "backtrack meta progressDist (getAdvanceThreshold v + 30) current = current"
    by (rule backtrack_stay)
  show ?thesis
    unfolding correctedIndex_def Let_def clamp sk bt by (rule refl)
qed

lemma trackManeuver_near:
  assumes "current < length meta"
    and "- 10 < distanceAlong (meta ! current) - progressDist"
    and "distanceAlong (meta ! current) - progressDist \<le> getAdvanceThreshold v"
  shows "trackManeuver meta current progressDist h v =
           (if getBearingDelta h (postBearing (meta ! current)) \<le> getBearingThreshold v
               \<and> current + 1 < length meta
            then current + 1 else current)"
proof -
  have lt: "current < length meta - 1 \<longleftrightarrow> current + 1 < length meta" by auto
  show ?thesis
    unfolding trackManeuver_def Let_def correctedIndex_stay [OF assms] advanceReason_def lt
    using assms(2,3) by auto
qed

lemma maneuverStage_index:
  "currentManeuverIndexRef (maneuverStage s f meta progressDist finalHeading) =
     trackManeuver meta (currentManeuverIndexRef s) progressDist
       (case finalHeading of Some h \<Rightarrow> h | None \<Rightarrow> smoothedHeadingRef s) (newSpeed f)"
  by (simp add: maneuverStage_def Let_def)

lemma getBearingDelta_self: "getBearingDelta b b = 0"
  using js_rem_small [of 0] by (simp add: getBearingDelta_def Let_def)


text \<open>
  Claim C1. Let the stored maneuver index be \<open>current\<close> and let the distance to that
  maneuver be within the advance threshold but not yet past by 10 m. Then neither
  correction loop moves the index, and the tracker advances it (by one) exactly when the
  angular difference between the heading and the maneuver's exit bearing is at most the
  speed-adaptive bearing threshold and the maneuver is not the last one; otherwise the
  index stays. The fix handler stores this index. At 20 km/h the thresholds are 30 m and
  55 degrees: with the maneuver at 100 m and the fix at 95 m, a heading equal to the exit
  bearing advances the index from 0 to 1, a heading 90 degrees off leaves it at 0.
\<close>

theorem C1_advance_requires_bearing_match:
  assumes "current < length meta"
    and "- 10 < distanceAlong (meta ! current) - progressDist"
    and "distanceAlong (meta ! current) - progressDist \<le> getAdvanceThreshold speedKmh"
  shows "trackManeuver meta current progressDist h speedKmh =
           (if getBearingDelta h (postBearing (meta ! current)) \<le> getBearingThreshold speedKmh
               \<and> current + 1 < length meta
            then current + 1 else current)
       \<and> (currentManeuverIndexRef s = current \<and> newSpeed f = speedKmh \<longrightarrow>
            currentManeuverIndexRef (maneuverStage s f meta progressDist (Some h)) =
              trackManeuver meta current progressDist h speedKmh)
       \<and> getAdvanceThreshold 20 = 30 \<and> getBearingThreshold 20 = 55
       \<and> trackManeuver [\<lparr>distanceAlong = 100, polylineIndex = i1, postBearing = b\<rparr>, m2] 0 95 b 20 = 1
       \<and> (getBearingDelta h' b = 90 \<longrightarrow>
            trackManeuver [\<lparr>distanceAlong = 100, polylineIndex = i1, postBearing = b\<rparr>, m2] 0 95 h' 20 = 0)"
proof -
  let ?meta = "[\<lparr>distanceAlong = 100, polylineIndex = i1, postBearing = b\<rparr>, m2]"
  have thr: "getAdvanceThreshold 20 = 30" "getBearingThreshold 20 = 55"
    by (simp_all add: getAdvanceThreshold_def getBearingThreshold_def)
  have near: "\<And>x. trackManeuver ?meta 0 95 x 20 =
           (if getBearingDelta x (postBearing (?meta ! 0)) \<le> getBearingThreshold 20
               \<and> 0 + 1 < length ?meta
            then 0 + 1 else 0)"
    by (rule trackManeuver_near) (simp_all add: thr)
  have s1: "trackManeuver ?meta 0 95 b 20 = 1"
    unfolding near by (simp add: thr getBearingDelta_self)
  have s2: "getBearingDelta h' b = 90 \<longrightarrow> trackManeuver ?meta 0 95 h' 20 = 0"
    unfolding near by (simp add: thr)
  show ?thesis
    using trackManeuver_near [OF assms, of h] maneuverStage_index [of s f meta progressDist "Some h"]
      thr s1 s2
    by simp
qed

theorem C1_advance_requires_bearing_match_witness:
  "let meta = [\<lparr>distanceAlong = 100, polylineIndex = 1, postBearing = 30\<rparr>,
               \<lparr>distanceAlong = 200, polylineIndex = 2, postBearing = 120\<rparr>]
   in (0::nat) < length meta
      \<and> - 10 < distanceAlong (meta ! 0) - 95
      \<and> distanceAlong (meta ! 0) - 95 \<le> getAdvanceThreshold 20
      \<and> getBearingDelta 30 (postBearing (meta ! 0)) \<le> getBearingThreshold 20
      \<and> trackManeuver meta 0 95 30 20 = 1
      \<and> \<not> getBearingDelta 120 (postBearing (meta ! 0)) \<le> getBearingThreshold 20
      \<and> trackManeuver meta 0 95 120 20 = 0"
proof -
  let ?meta = "[\<lparr>distanceAlong = 100, polylineIndex = 1, postBearing = 30\<rparr>,
               \<lparr>distanceAlong = 200, polylineIndex = 2, postBearing = 120\<rparr>]"
  have thr: "getAdvanceThreshold 20 = 30" "getBearingThreshold 20 = 55"
    by (simp_all add: getAdvanceThreshold_def getBearingThreshold_def)
  have h1: "(0::nat) < length ?meta" by simp
  have h2: "- 10 < distanceAlong (?meta ! 0) - 95" by simp
  have h3: "distanceAlong (?meta ! 0) - 95 \<le> getAdvanceThreshold 20" by (simp add: thr)
  have d1: "getBearingDelta 30 30 = 0" by (rule getBearingDelta_self)
  have d2: "getBearingDelta 120 30 = 90"
    using js_rem_small [of 90] by (simp add: getBearingDelta_def Let_def)
  show ?thesis
    unfolding Let_def
    using C1_advance_requires_bearing_match [OF h1 h2 h3, of 30]
      C1_advance_requires_bearing_match [OF h1 h2 h3, of 120] h1 h2 h3
    by (simp add: thr d1 d2)
qed

section \<open>The fix handler never throws\<close>

lemma elemAt_ok: "i < length xs \<Longrightarrow> elemAt xs i = Inr (xs ! i)"
  by (simp add: elemAt_def)

lemma targetLoop_range:
  "targetLoop i ds t = Some j \<Longrightarrow> i \<le> j \<and> j < i + length ds"
proof (induction ds arbitrary: i)
  case Nil
  then show ?case by simp
next
  case (Cons d ds)
  show ?case
  proof (cases "d \<ge> t")
    case True
    with Cons.prems show ?thesis by simp
  next
    case False
    with Cons.prems have "targetLoop (i + 1) ds t = Some j" by simp
    from Cons.IH [OF this] show ?thesis by simp
  qed
qed

lemma polylineDistances_Some:
  "polylineDistances (Some r) = Some ds \<Longrightarrow> length ds = length (polyline r) \<and> polyline r \<noteq> []"
  by (auto simp: polylineDistances_def length_cumulativeDistances split: if_splits)

lemma getLookaheadBearing_total:
  "\<exists>b. getLookaheadBearing r (polylineDistances (Some r)) k pos la = Inr b"
proof (cases "polylineDistances (Some r)")
  case None
  then show ?thesis by (simp add: getLookaheadBearing_def)
next
  case (Some ds)
  from polylineDistances_Some [OF Some] have len: "length ds = length (polyline r)" by simp
  show ?thesis
  proof (cases "length ds < 2 \<or> distance r \<le> 0 \<or> last ds = 0")
    case True
    then show ?thesis unfolding getLookaheadBearing_def Some by (auto simp: Let_def)
  next
    case False
    then have l2: "2 \<le> length (polyline r)" using len by simp
    let ?seg = "max 0 (min k (length (polyline r) - 1))"
    have seg: "?seg < length (polyline r)" using l2 by auto
    have tgt: "\<And>t. (case targetLoop ?seg (drop ?seg ds) t of Some i \<Rightarrow> i | None \<Rightarrow> length ds - 1)
                  < length (polyline r)"
    proof -
      fix t
      show "(case targetLoop ?seg (drop ?seg ds) t of Some i \<Rightarrow> i | None \<Rightarrow> length ds - 1)
              < length (polyline r)"
      proof (cases "targetLoop ?seg (drop ?seg ds) t")
        case None
        then show ?thesis using l2 len by simp
      next
        case (Some j)
        from targetLoop_range [OF Some] seg len Some show ?thesis by simp
      qed
    qed
    have prev: "\<And>t. (case targetLoop ?seg (drop ?seg ds) t of Some i \<Rightarrow> i | None \<Rightarrow> length ds - 1) - 1
                  < length (polyline r)"
      using tgt by (meson less_imp_diff_less)
    have c1: "(length ds < 2 \<or> distance r \<le> 0) = False" and c2: "(last ds = 0) = False"
      using False by auto
    show ?thesis
      unfolding getLookaheadBearing_def Some option.case Let_def
      by (simp only: c1 c2 if_False elemAt_ok [OF seg] elemAt_ok [OF tgt] elemAt_ok [OF prev] sum.case)
         (rule exI, rule refl)
  qed
qed

lemma lookaheadStage_total: "\<exists>h. lookaheadStage c s f p h0 k = Inr h"
proof (cases "appStatus s = NAVIGATING")
  case False
  then show ?thesis by (simp add: lookaheadStage_def)
next
  case True
  show ?thesis
  proof (cases "route s")
    case None
    then show ?thesis by (simp add: lookaheadStage_def)
  next
    case (Some r)
    show ?thesis
    proof (cases k)
      case None
      then show ?thesis using True Some by (simp add: lookaheadStage_def)
    next
      case (Some i)
      obtain b where b: "getLookaheadBearing r (polylineDistances (Some r)) i p
                           (min 60 (max 25 (newSpeed f * 0.6))) = Inr b"
        using getLookaheadBearing_total by blast
      show ?thesis
        using True \<open>route s = Some r\<close> Some b
        by (cases b) (simp_all add: lookaheadStage_def Let_def)
    qed
  qed
qed

lemma trackingStage_cases:
  assumes "trackingStage c s f p h k = Inr s'"
  shows "s' = s \<or> (\<exists>d m pd. s' = maneuverStage (offRouteStage c s f d) f m pd h)"
  using assms
  by (auto simp: trackingStage_def Let_def split: option.splits if_splits sum.splits)

lemma trackingStage_total: "\<exists>s'. trackingStage c s f p h k = Inr s'"
proof (cases "appStatus s = NAVIGATING")
  case False
  then show ?thesis by (simp add: trackingStage_def)
next
  case True
  show ?thesis
  proof (cases "route s")
    case None
    then show ?thesis by (simp add: trackingStage_def)
  next
    case (Some r)
    show ?thesis
    proof (cases k)
      case None
      then show ?thesis using True Some by (simp add: trackingStage_def)
    next
      case (Some i)
      show ?thesis
      proof (cases "polylineDistances (Some r)")
        case None
        then show ?thesis using True \<open>route s = Some r\<close> Some by (simp add: trackingStage_def)
      next
        case (Some ds)
        from polylineDistances_Some [OF Some] have len: "length ds = length (polyline r)" by simp
        show ?thesis
        proof (cases "length ds > i \<and> maneuverMeta (Some r) \<noteq> []")
          case True
          then have "elemAt (polyline r) i = Inr (polyline r ! i)"
            using len by (intro elemAt_ok) simp
          then show ?thesis
            using True \<open>appStatus s = NAVIGATING\<close> \<open>route s = Some r\<close> \<open>k = Some i\<close> Some
            by (simp add: trackingStage_def Let_def)
        next
          case False
          then show ?thesis
            using \<open>appStatus s = NAVIGATING\<close> \<open>route s = Some r\<close> \<open>k = Some i\<close> Some
            by (auto simp: trackingStage_def Let_def)
        qed
      qed
    qed
  qed
qed

lemma updateRiderLocation_unfold:
  assumes "updateRiderLocation c s f = Inr s'"
  shows "\<exists>p h0 k h. snapStage s f = (p, h0, k) \<and> lookaheadStage c s f p h0 k = Inr h
           \<and> trackingStage c (smoothStage c (commitStage (pendingStage c s f p h) f)) f p h k = Inr s'"
  using assms
  by (auto simp: updateRiderLocation_def Let_def split: prod.splits sum.splits)

lemma updateRiderLocation_total: "\<exists>s'. updateRiderLocation c s f = Inr s'"
proof -
  obtain p h0 k where sn: "snapStage s f = (p, h0, k)" by (cases "snapStage s f") auto
  obtain h where la: "lookaheadStage c s f p h0 k = Inr h" using lookaheadStage_total by blast
  obtain s' where "trackingStage c (smoothStage c (commitStage (pendingStage c s f p h) f)) f p h k = Inr s'"
    using trackingStage_total by blast
  then show ?thesis
    by (simp add: updateRiderLocation_def sn la Let_def)
qed

section \<open>What each stage of the fix handler changes\<close>

lemma pendingStage_frame:
  "lastStateUpdateTimeRef (pendingStage c s f p h) = lastStateUpdateTimeRef s"
  "commitLog (pendingStage c s f p h) = commitLog s"
  "currentPos (pendingStage c s f p h) = currentPos s"
  "speed (pendingStage c s f p h) = speed s"
  "heading (pendingStage c s f p h) = heading s"
  "pendingPosRef (pendingStage c s f p h) = Some p"
  "pendingSpeedRef (pendingStage c s f p h) = Some (newSpeed f)"
  "lastPosRef (pendingStage c s f p h) = Some p"
  "offRouteCounterRef (pendingStage c s f p h) = offRouteCounterRef s"
  "lastRerouteTimeRef (pendingStage c s f p h) = lastRerouteTimeRef s"
  "reroutingRef (pendingStage c s f p h) = reroutingRef s"
  "rerouteRequests (pendingStage c s f p h) = rerouteRequests s"
  "simLoop (pendingStage c s f p h) = simLoop s"
  "appStatus (pendingStage c s f p h) = appStatus s"
  "route (pendingStage c s f p h) = route s"
  "isSimulating (pendingStage c s f p h) = isSimulating s"
  "currentManeuverIndexRef (pendingStage c s f p h) = currentManeuverIndexRef s"
  "currentManeuverIndex (pendingStage c s f p h) = currentManeuverIndex s"
  "currentManeuverRemainingRef (pendingStage c s f p h) = currentManeuverRemainingRef s"
  "currentManeuverRemaining (pendingStage c s f p h) = currentManeuverRemaining s"
  "distanceRef (pendingStage c s f p h) = distanceRef s"
  by (simp_all add: pendingStage_def)

lemma commitStage_frame:
  "pendingPosRef (commitStage s f) = pendingPosRef s"
  "pendingSpeedRef (commitStage s f) = pendingSpeedRef s"
  "pendingHeadingRef (commitStage s f) = pendingHeadingRef s"
  "lastPosRef (commitStage s f) = lastPosRef s"
  "offRouteCounterRef (commitStage s f) = offRouteCounterRef s"
  "lastRerouteTimeRef (commitStage s f) = lastRerouteTimeRef s"
  "reroutingRef (commitStage s f) = reroutingRef s"
  "rerouteRequests (commitStage s f) = rerouteRequests s"
  "simLoop (commitStage s f) = simLoop s"
  "appStatus (commitStage s f) = appStatus s"
  "route (commitStage s f) = route s"
  "isSimulating (commitStage s f) = isSimulating s"
  "currentManeuverIndexRef (commitStage s f) = currentManeuverIndexRef s"
  "currentManeuverIndex (commitStage s f) = currentManeuverIndex s"
  "currentManeuverRemainingRef (commitStage s f) = currentManeuverRemainingRef s"
  "currentManeuverRemaining (commitStage s f) = currentManeuverRemaining s"
  "distanceRef (commitStage s f) = distanceRef s"
  by (simp_all add: commitStage_def)

lemma smoothStage_frame:
  "lastStateUpdateTimeRef (smoothStage c s) = lastStateUpdateTimeRef s"
  "commitLog (smoothStage c s) = commitLog s"
  "currentPos (smoothStage c s) = currentPos s"
  "speed (smoothStage c s) = speed s"
  "heading (smoothStage c s) = heading s"
  "pendingPosRef (smoothStage c s) = pendingPosRef s"
  "pendingSpeedRef (smoothStage c s) = pendingSpeedRef s"
  "pendingHeadingRef (smoothStage c s) = pendingHeadingRef s"
  "lastPosRef (smoothStage c s) = lastPosRef s"
  "offRouteCounterRef (smoothStage c s) = offRouteCounterRef s"
  "lastRerouteTimeRef (smoothStage c s) = lastRerouteTimeRef s"
  "reroutingRef (smoothStage c s) = reroutingRef s"
  "rerouteRequests (smoothStage c s) = rerouteRequests s"
  "simLoop (smoothStage c s) = simLoop s"
  "appStatus (smoothStage c s) = appStatus s"
  "route (smoothStage c s) = route s"
  "isSimulating (smoothStage c s) = isSimulating s"
  "currentManeuverIndexRef (smoothStage c s) = currentManeuverIndexRef s"
  "currentManeuverIndex (smoothStage c s) = currentManeuverIndex s"
  "currentManeuverRemainingRef (smoothStage c s) = currentManeuverRemainingRef s"
  "currentManeuverRemaining (smoothStage c s) = currentManeuverRemaining s"
  "distanceRef (smoothStage c s) = distanceRef s"
  by (simp_all add: smoothStage_def Let_def)

lemma offRouteStage_frame:
  "lastStateUpdateTimeRef (offRouteStage c s f d) = lastStateUpdateTimeRef s"
  "commitLog (offRouteStage c s f d) = commitLog s"
  "currentPos (offRouteStage c s f d) = currentPos s"
  "speed (offRouteStage c s f d) = speed s"
  "heading (offRouteStage c s f d) = heading s"
  "pendingPosRef (offRouteStage c s f d) = pendingPosRef s"
  "pendingSpeedRef (offRouteStage c s f d) = pendingSpeedRef s"
  "pendingHeadingRef (offRouteStage c s f d) = pendingHeadingRef s"
  "lastPosRef (offRouteStage c s f d) = lastPosRef s"
  "simLoop (offRouteStage c s f d) = simLoop s"
  "appStatus (offRouteStage c s f d) = appStatus s"
  "route (offRouteStage c s f d) = route s"
  "isSimulating (offRouteStage c s f d) = isSimulating s"
  "currentManeuverIndexRef (offRouteStage c s f d) = currentManeuverIndexRef s"
  "currentManeuverIndex (offRouteStage c s f d) = currentManeuverIndex s"
  "currentManeuverRemainingRef (offRouteStage c s f d) = currentManeuverRemainingRef s"
  "currentManeuverRemaining (offRouteStage c s f d) = currentManeuverRemaining s"
  "distanceRef (offRouteStage c s f d) = distanceRef s"
  "smoothedHeadingRef (offRouteStage c s f d) = smoothedHeadingRef s"
  by (simp_all add: offRouteStage_def Let_def)

lemma maneuverStage_frame:
  "lastStateUpdateTimeRef (maneuverStage s f m pd h) = lastStateUpdateTimeRef s"
  "commitLog (maneuverStage s f m pd h) = commitLog s"
  "currentPos (maneuverStage s f m pd h) = currentPos s"
  "speed (maneuverStage s f m pd h) = speed s"
  "heading (maneuverStage s f m pd h) = heading s"
  "pendingPosRef (maneuverStage s f m pd h) = pendingPosRef s"
  "pendingSpeedRef (maneuverStage s f m pd h) = pendingSpeedRef s"
  "pendingHeadingRef (maneuverStage s f m pd h) = pendingHeadingRef s"
  "lastPosRef (maneuverStage s f m pd h) = lastPosRef s"
  "offRouteCounterRef (maneuverStage s f m pd h) = offRouteCounterRef s"
  "lastRerouteTimeRef (maneuverStage s f m pd h) = lastRerouteTimeRef s"
  "reroutingRef (maneuverStage s f m pd h) = reroutingRef s"
  "rerouteRequests (maneuverStage s f m pd h) = rerouteRequests s"
  "simLoop (maneuverStage s f m pd h) = simLoop s"
  "appStatus (maneuverStage s f m pd h) = appStatus s"
  "route (maneuverStage s f m pd h) = route s"
  "isSimulating (maneuverStage s f m pd h) = isSimulating s"
  "distanceRef (maneuverStage s f m pd h) = distanceRef s"
  by (simp_all add: maneuverStage_def Let_def)

lemmas stage_frames = pendingStage_frame commitStage_frame smoothStage_frame
  offRouteStage_frame maneuverStage_frame

text \<open>What a fix does to the throttled rider state.\<close>

lemma commit_heading_smoothAngle:
  "js_rem (h0 + wrapDiff (finalH - h0) * 0.15 + 360) 360 = smoothAngle h0 finalH 0.15"
  by (simp add: smoothAngle_def)

lemma updateRiderLocation_commit:
  assumes "updateRiderLocation c s f = Inr s'"
  shows "pendingPosRef s' = Some (fst (snapStage s f))"
    and "pendingSpeedRef s' = Some (newSpeed f)"
    and "now f - lastStateUpdateTimeRef s \<ge> 100 \<Longrightarrow>
           lastStateUpdateTimeRef s' = now f
         \<and> commitLog s' = commitLog s @ [(now f, pendingPosRef s', newSpeed f)]
         \<and> currentPos s' = pendingPosRef s' \<and> speed s' = newSpeed f
         \<and> heading s' = (case pendingHeadingRef s' of
                            Some h \<Rightarrow> smoothAngle (heading s) h 0.15 | None \<Rightarrow> heading s)"
    and "\<not> now f - lastStateUpdateTimeRef s \<ge> 100 \<Longrightarrow>
           lastStateUpdateTimeRef s' = lastStateUpdateTimeRef s \<and> commitLog s' = commitLog s
         \<and> currentPos s' = currentPos s \<and> speed s' = speed s \<and> heading s' = heading s"
    and "newSpeed f < 3 \<Longrightarrow> \<not> c_isSimulating c \<Longrightarrow> pendingHeadingRef s \<noteq> None \<Longrightarrow>
           pendingHeadingRef s' = pendingHeadingRef s"
    and "simLoop s' = simLoop s" and "appStatus s' = appStatus s" and "route s' = route s"
    and "isSimulating s' = isSimulating s" and "distanceRef s' = distanceRef s"
proof -
  from updateRiderLocation_unfold [OF assms] obtain p h0 k h where
    sn: "snapStage s f = (p, h0, k)" and
    tr: "trackingStage c (smoothStage c (commitStage (pendingStage c s f p h) f)) f p h k = Inr s'"
    by blast
  let ?s3 = "smoothStage c (commitStage (pendingStage c s f p h) f)"
  from trackingStage_cases [OF tr] have eq:
    "lastStateUpdateTimeRef s' = lastStateUpdateTimeRef ?s3" "commitLog s' = commitLog ?s3"
    "currentPos s' = currentPos ?s3" "speed s' = speed ?s3" "heading s' = heading ?s3"
    "pendingPosRef s' = pendingPosRef ?s3" "pendingSpeedRef s' = pendingSpeedRef ?s3"
    "pendingHeadingRef s' = pendingHeadingRef ?s3" "simLoop s' = simLoop ?s3"
    "appStatus s' = appStatus ?s3" "route s' = route ?s3" "isSimulating s' = isSimulating ?s3"
    "distanceRef s' = distanceRef ?s3"
    by (auto simp: maneuverStage_frame offRouteStage_frame)
  show "pendingPosRef s' = Some (fst (snapStage s f))"
    by (simp add: eq stage_frames sn)
  show "pendingSpeedRef s' = Some (newSpeed f)"
    by (simp add: eq stage_frames)
  show "simLoop s' = simLoop s" "appStatus s' = appStatus s" "route s' = route s"
    "isSimulating s' = isSimulating s" "distanceRef s' = distanceRef s"
    by (simp_all add: eq stage_frames)
  show "now f - lastStateUpdateTimeRef s \<ge> 100 \<Longrightarrow>
           lastStateUpdateTimeRef s' = now f
         \<and> commitLog s' = commitLog s @ [(now f, pendingPosRef s', newSpeed f)]
         \<and> currentPos s' = pendingPosRef s' \<and> speed s' = newSpeed f
         \<and> heading s' = (case pendingHeadingRef s' of
                            Some h \<Rightarrow> smoothAngle (heading s) h 0.15 | None \<Rightarrow> heading s)"
    by (simp add: eq smoothStage_frame commitStage_frame)
       (simp add: commitStage_def pendingStage_frame smoothAngle_def
          split: option.splits)
  show "\<not> now f - lastStateUpdateTimeRef s \<ge> 100 \<Longrightarrow>
           lastStateUpdateTimeRef s' = lastStateUpdateTimeRef s \<and> commitLog s' = commitLog s
         \<and> currentPos s' = currentPos s \<and> speed s' = speed s \<and> heading s' = heading s"
    by (simp add: eq smoothStage_frame) (simp add: commitStage_def pendingStage_frame)
  show "newSpeed f < 3 \<Longrightarrow> \<not> c_isSimulating c \<Longrightarrow> pendingHeadingRef s \<noteq> None \<Longrightarrow>
           pendingHeadingRef s' = pendingHeadingRef s"
    by (simp add: eq smoothStage_frame commitStage_frame) (auto simp: pendingStage_def)
qed









lemma maneuverMeta_degenerate:
  "length (polyline r) < 2 \<or> maneuvers r = [] \<Longrightarrow> maneuverMeta (Some r) = []"
  by (auto simp: maneuverMeta_def buildManeuverMeta_def length_cumulativeDistances)

lemma trackingStage_skip:
  "maneuverMeta (route s) = [] \<Longrightarrow> trackingStage c s f p h k = Inr s"
  by (auto simp: trackingStage_def Let_def split: option.splits)


lemma snapStage_navigating:
  assumes "appStatus s = NAVIGATING" and "route s = Some r"
  shows "fst (snapStage s f) = point (getNearestPointOnLine (newPos f) (polyline r))"
    and "snd (snd (snapStage s f)) = Some (segmentIndex (getNearestPointOnLine (newPos f) (polyline r)))"
  using assms by (simp_all add: snapStage_def Let_def)

lemma snapStage_idle:
  assumes "appStatus s \<noteq> NAVIGATING \<or> route s = None"
  shows "fst (snapStage s f) = newPos f" and "snd (snd (snapStage s f)) = None"
  using assms by (auto simp: snapStage_def Let_def split: option.splits)


section \<open>Simulator frames and runs of events\<close>






lemma locateLoop_index:
  "snd (locateLoop i line acc t) = 0
   \<or> (i \<le> snd (locateLoop i line acc t) \<and> snd (locateLoop i line acc t) + 2 \<le> i + length line)"
proof (induction line arbitrary: i acc)
  case Nil
  then show ?case by simp
next
  case (Cons a line)
  show ?case
  proof (cases line)
    case Nil
    then show ?thesis by simp
  next
    case (Cons b rest)
    show ?thesis
    proof (cases "acc + getDistanceMeters a b \<ge> t")
      case True
      then show ?thesis unfolding Cons by simp
    next
      case False
      then have eq: "locateLoop i (a # line) acc t
                      = locateLoop (i + 1) line (acc + getDistanceMeters a b) t"
        unfolding Cons by (simp add: Let_def)
      from Cons.IH [of "i + 1" "acc + getDistanceMeters a b"] show ?thesis
        unfolding eq by auto
    qed
  qed
qed

lemma locateLoop_ok:
  "2 \<le> length line \<Longrightarrow> snd (locateLoop 0 line acc t) + 1 < length line"
  using locateLoop_index [of 0 line acc t] by auto

lemma op_frames:
  "commitLog (setAppStatus st s) = commitLog s"
  "lastStateUpdateTimeRef (setAppStatus st s) = lastStateUpdateTimeRef s"
  "currentPos (setAppStatus st s) = currentPos s"
  "speed (setAppStatus st s) = speed s"
  "heading (setAppStatus st s) = heading s"
  "rerouteRequests (setAppStatus st s) = rerouteRequests s"
  "lastRerouteTimeRef (setAppStatus st s) = lastRerouteTimeRef s"
  "simLoop (setAppStatus st s) = simLoop s"
  "appStatus (setAppStatus st s) = st"
  "isSimulating (setAppStatus st s) = isSimulating s"
  "commitLog (setRoute r s) = commitLog s"
  "lastStateUpdateTimeRef (setRoute r s) = lastStateUpdateTimeRef s"
  "currentPos (setRoute r s) = currentPos s"
  "speed (setRoute r s) = speed s"
  "heading (setRoute r s) = heading s"
  "rerouteRequests (setRoute r s) = rerouteRequests s"
  "lastRerouteTimeRef (setRoute r s) = lastRerouteTimeRef s"
  "simLoop (setRoute r s) = simLoop s"
  "commitLog (stopSimulation s) = commitLog s"
  "lastStateUpdateTimeRef (stopSimulation s) = lastStateUpdateTimeRef s"
  "currentPos (stopSimulation s) = currentPos s"
  "speed (stopSimulation s) = speed s"
  "heading (stopSimulation s) = heading s"
  "rerouteRequests (stopSimulation s) = rerouteRequests s"
  "lastRerouteTimeRef (stopSimulation s) = lastRerouteTimeRef s"
  "simLoop (stopSimulation s) = None"
  "isSimulating (stopSimulation s) = False"
  by (simp_all add: setAppStatus_def setRoute_def stopSimulation_def)


lemma startSimulation_frames:
  "commitLog (startSimulation c s) = commitLog s"
  "lastStateUpdateTimeRef (startSimulation c s) = lastStateUpdateTimeRef s"
  "currentPos (startSimulation c s) = currentPos s"
  "speed (startSimulation c s) = speed s"
  "heading (startSimulation c s) = heading s"
  "rerouteRequests (startSimulation c s) = rerouteRequests s"
  "lastRerouteTimeRef (startSimulation c s) = lastRerouteTimeRef s"
  by (simp_all add: startSimulation_def Let_def op_frames split: option.splits)


text \<open>The three ways in which a frame callback ends.\<close>

lemma simulatedFix_clock:
  "now (simulatedFix cl s1 perfNow t tMs a b acc) = t"
  "nowMs (simulatedFix cl s1 perfNow t tMs a b acc) = tMs"
  by (simp_all add: simulatedFix_def Let_def)

lemma sum_case_Inr:
  "(case x of Inl e \<Rightarrow> Inl e | Inr v \<Rightarrow> Inr (g v)) = Inr s' \<Longrightarrow> \<exists>v. x = Inr v \<and> s' = g v"
  by (cases x) auto

lemma animate_cases:
  assumes "animate cl perfNow t tMs s = Inr s'"
  shows "(odd (frameCount cl + 1) \<and> s' = s\<lparr>simLoop := Some (cl\<lparr>frameCount := frameCount cl + 1\<rparr>)\<rparr>)
       \<or> (even (frameCount cl + 1) \<and> distanceRef s + 0.8 \<ge> simTotalDist cl
           \<and> s' = setAppStatus ARRIVED
                    (stopSimulation (s\<lparr>simLoop := None, distanceRef := distanceRef s + 0.8\<rparr>)))
       \<or> (even (frameCount cl + 1) \<and> distanceRef s + 0.8 < simTotalDist cl
           \<and> (\<exists>fx s3. updateRiderLocation (simCaptured cl)
                         (s\<lparr>simLoop := None, distanceRef := distanceRef s + 0.8,
                            simLastTimeRef := Some perfNow,
                            simLastDistRef := distanceRef s + 0.8\<rparr>) fx = Inr s3
                      \<and> now fx = t \<and> nowMs fx = tMs
                      \<and> s' = s3\<lparr>simLoop := Some (cl\<lparr>frameCount := frameCount cl + 1\<rparr>)\<rparr>))"
proof (cases "odd (frameCount cl + 1)")
  case True
  then have "(frameCount cl + 1) mod 2 \<noteq> 0" by presburger
  with assms True show ?thesis by (simp add: animate_def Let_def)
next
  case False
  then have ev: "(frameCount cl + 1) mod 2 = 0" by presburger
  show ?thesis
  proof (cases "distanceRef s + 0.8 \<ge> simTotalDist cl")
    case True
    with assms ev False show ?thesis by (simp add: animate_def Let_def)
  next
    case far: False
    obtain accumulated segIdx where loc:
      "locateLoop 0 (simPoly cl) 0 (distanceRef s + 0.8) = (accumulated, segIdx)"
      by (cases "locateLoop 0 (simPoly cl) 0 (distanceRef s + 0.8)") auto
    let ?cl1 = "cl\<lparr>frameCount := Suc (frameCount cl)\<rparr>"
    let ?s1 = "s\<lparr>simLoop := None, distanceRef := distanceRef s + 0.8\<rparr>"
    let ?s2 = "s\<lparr>simLoop := None, distanceRef := distanceRef s + 0.8,
                  simLastTimeRef := Some perfNow, simLastDistRef := distanceRef s + 0.8\<rparr>"
    obtain a where ea: "elemAt (simPoly cl) segIdx = Inr a"
    proof (cases "elemAt (simPoly cl) segIdx")
      case (Inl e)
      with assms ev far loc show ?thesis by (simp add: animate_def Let_def)
    next
      case (Inr a)
      then show ?thesis by (rule that)
    qed
    obtain b where eb: "elemAt (simPoly cl) (segIdx + 1) = Inr b"
    proof (cases "elemAt (simPoly cl) (segIdx + 1)")
      case (Inl e)
      with assms ev far loc ea show ?thesis by (simp add: animate_def Let_def)
    next
      case (Inr b)
      then show ?thesis by (rule that)
    qed
    from assms ev far loc ea eb have
      "(case updateRiderLocation (simCaptured cl) ?s2
               (simulatedFix ?cl1 ?s1 perfNow t tMs a b accumulated) of
          Inl e \<Rightarrow> Inl e
        | Inr s3 \<Rightarrow> Inr (s3\<lparr>simLoop := Some ?cl1\<rparr>)) = Inr s'"
      by (simp add: animate_def Let_def)
    from sum_case_Inr [OF this] obtain s3 where
      "updateRiderLocation (simCaptured cl) ?s2
         (simulatedFix ?cl1 ?s1 perfNow t tMs a b accumulated) = Inr s3"
      "s' = s3\<lparr>simLoop := Some ?cl1\<rparr>"
      by blast
    then have "\<exists>fx s3. updateRiderLocation (simCaptured cl) ?s2 fx = Inr s3
                      \<and> now fx = t \<and> nowMs fx = tMs \<and> s' = s3\<lparr>simLoop := Some ?cl1\<rparr>"
      using simulatedFix_clock by blast
    with False far show ?thesis by simp
  qed
qed

lemma animate_total:
  assumes "2 \<le> length (simPoly cl)"
  shows "\<exists>s'. animate cl perfNow t tMs s = Inr s'"
proof (cases "(frameCount cl + 1) mod 2 \<noteq> 0")
  case True
  then show ?thesis by (simp add: animate_def Let_def)
next
  case False
  show ?thesis
  proof (cases "distanceRef s + 0.8 \<ge> simTotalDist cl")
    case True
    with False show ?thesis by (simp add: animate_def Let_def)
  next
    case far: False
    obtain accumulated segIdx where loc:
      "locateLoop 0 (simPoly cl) 0 (distanceRef s + 0.8) = (accumulated, segIdx)"
      by (cases "locateLoop 0 (simPoly cl) 0 (distanceRef s + 0.8)") auto
    from locateLoop_ok [OF assms, of 0 "distanceRef s + 0.8"] loc
    have i: "segIdx + 1 < length (simPoly cl)" "segIdx < length (simPoly cl)" by simp_all
    have e: "elemAt (simPoly cl) segIdx = Inr (simPoly cl ! segIdx)"
      "elemAt (simPoly cl) (segIdx + 1) = Inr (simPoly cl ! (segIdx + 1))"
      using i by (simp_all add: elemAt_def)
    have tot: "\<And>c s0 fx g. (case updateRiderLocation c s0 fx of Inl e \<Rightarrow> Inl e
                 | Inr s3 \<Rightarrow> Inr ((g :: Session \<Rightarrow> Session) s3))
              = Inr (g (projr (updateRiderLocation c s0 fx)))"
    proof -
      fix c s0 fx and g :: "Session \<Rightarrow> Session"
      obtain s3 where "updateRiderLocation c s0 fx = Inr s3"
        using updateRiderLocation_total by blast
      then show "(case updateRiderLocation c s0 fx of Inl e \<Rightarrow> Inl e | Inr s3 \<Rightarrow> Inr (g s3))
              = Inr (g (projr (updateRiderLocation c s0 fx)))"
        by simp
    qed
    show ?thesis
      using False far loc e by (simp add: animate_def Let_def tot)
  qed
qed

lemma committed_refl:
  "commitLog s' = commitLog s \<Longrightarrow> lastStateUpdateTimeRef s' = lastStateUpdateTimeRef s \<Longrightarrow>
   currentPos s' = currentPos s \<Longrightarrow> speed s' = speed s \<Longrightarrow> heading s' = heading s \<Longrightarrow>
   committed s s' []"
  by (simp add: committed_def)


lemma requested_refl:
  "rerouteRequests s' = rerouteRequests s \<Longrightarrow> lastRerouteTimeRef s' = lastRerouteTimeRef s \<Longrightarrow>
   requested s s' []"
  by (simp add: requested_def)










section \<open>Throttled commits\<close>



section \<open>Off-route strikes and the reroute cooldown\<close>

lemma getDistanceMeters_self: "getDistanceMeters p p = 0"
  by (simp add: getDistanceMeters_def js_atan2_def)




section \<open>The heading commit\<close>

lemma lookaheadStage_idle:
  "appStatus s \<noteq> NAVIGATING \<or> route s = None \<Longrightarrow> lookaheadStage c s f p h k = Inr h"
  by (auto simp: lookaheadStage_def split: option.splits)

lemma updateRiderLocation_idle:
  assumes "appStatus s \<noteq> NAVIGATING \<or> route s = None"
  shows "updateRiderLocation c s f =
           Inr (smoothStage c (commitStage
                  (pendingStage c s f (newPos f) (fst (snd (snapStage s f)))) f))"
proof -
  obtain p h0 k where sn0: "snapStage s f = (p, h0, k)" by (cases "snapStage s f") auto
  from snapStage_idle [OF assms, of f] sn0 have p: "p = newPos f" and k: "k = None" by simp_all
  from sn0 p have sn: "snapStage s f = (newPos f, h0, k)" by simp
  have la: "lookaheadStage c s f (newPos f) h0 k = Inr h0"
    using assms by (rule lookaheadStage_idle)
  let ?s3 = "smoothStage c (commitStage (pendingStage c s f (newPos f) h0) f)"
  have "appStatus ?s3 \<noteq> NAVIGATING \<or> route ?s3 = None"
    using assms by (simp add: stage_frames)
  then have "trackingStage c ?s3 f (newPos f) h0 k = Inr ?s3"
    by (auto simp: trackingStage_def split: option.splits)
  then show ?thesis
    by (simp add: updateRiderLocation_def sn la Let_def)
qed

lemma snapStage_idle_heading:
  assumes "appStatus s \<noteq> NAVIGATING \<or> route s = None" and "rawHeading f = Some h"
  shows "fst (snd (snapStage s f)) = Some h"
  using assms by (auto simp: snapStage_def split: option.splits)

lemma fastFix_state:
  "\<exists>s1. updateRiderLocation idleCaptured initialSession fastFix = Inr s1
        \<and> heading s1 = 27 / 2 \<and> pendingHeadingRef s1 = Some 90
        \<and> lastStateUpdateTimeRef s1 = 1000 \<and> appStatus s1 = IDLE"
proof -
  obtain s1 where s1: "updateRiderLocation idleCaptured initialSession fastFix = Inr s1"
    using updateRiderLocation_total by blast
  note e = updateRiderLocation_commit [OF s1]
  have idle: "appStatus initialSession \<noteq> NAVIGATING \<or> route initialSession = None"
    by (simp add: initialSession_def)
  have gate: "now fastFix - lastStateUpdateTimeRef initialSession \<ge> 100"
    by (simp add: fastFix_def initialSession_def)
  from updateRiderLocation_idle [OF idle, of idleCaptured fastFix] s1
  have "s1 = smoothStage idleCaptured (commitStage
                  (pendingStage idleCaptured initialSession fastFix (newPos fastFix)
                     (fst (snd (snapStage initialSession fastFix)))) fastFix)"
    by simp
  then have ph: "pendingHeadingRef s1 = Some 90"
    using snapStage_idle_heading [OF idle, of fastFix 90]
    by (simp add: smoothStage_frame commitStage_frame)
       (simp add: pendingStage_def fastFix_def initialSession_def)
  have "smoothAngle 0 90 0.15 = 27 / 2"
    using js_rem_shift [of "27 / 2" 1] by (simp add: smoothAngle_def wrapDiff_def Let_def)
  with e(3) [OF gate] ph have "heading s1 = 27 / 2" "lastStateUpdateTimeRef s1 = 1000"
    by (simp_all add: initialSession_def fastFix_def)
  with s1 ph e(7) show ?thesis by (auto simp: initialSession_def)
qed


text \<open>
  Claim C4, as amended. On every commit (a fix that passes the 100 ms gate) with a pending
  heading, the committed heading becomes \<open>smoothAngle\<close> of the previous committed heading
  and the pending heading with factor 0.15; a fix that does not pass the gate leaves the
  committed heading unchanged. A fix below 3 km/h, handled outside the simulation while a
  pending heading exists, leaves the pending heading (the target of the blend) unchanged;
  a fix at 3 km/h or more outside navigation makes its compass heading the pending
  heading.
\<close>

theorem C4_heading_commit:
  assumes "updateRiderLocation c s f = Inr s'"
  shows "(now f - lastStateUpdateTimeRef s \<ge> 100 \<longrightarrow>
            heading s' = (case pendingHeadingRef s' of
                            Some h \<Rightarrow> smoothAngle (heading s) h 0.15 | None \<Rightarrow> heading s))
       \<and> (\<not> now f - lastStateUpdateTimeRef s \<ge> 100 \<longrightarrow> heading s' = heading s)
       \<and> (newSpeed f < 3 \<and> \<not> c_isSimulating c \<and> pendingHeadingRef s \<noteq> None \<longrightarrow>
            pendingHeadingRef s' = pendingHeadingRef s)
       \<and> (newSpeed f \<ge> 3 \<and> appStatus s \<noteq> NAVIGATING \<and> rawHeading f = Some h \<longrightarrow>
            pendingHeadingRef s' = Some h)"
proof -
  note e = updateRiderLocation_commit [OF assms]
  have a: "now f - lastStateUpdateTimeRef s \<ge> 100 \<longrightarrow>
            heading s' = (case pendingHeadingRef s' of
                            Some h \<Rightarrow> smoothAngle (heading s) h 0.15 | None \<Rightarrow> heading s)"
    using e(3) by blast
  have b: "\<not> now f - lastStateUpdateTimeRef s \<ge> 100 \<longrightarrow> heading s' = heading s"
    using e(4) by blast
  have c: "newSpeed f < 3 \<and> \<not> c_isSimulating c \<and> pendingHeadingRef s \<noteq> None \<longrightarrow>
            pendingHeadingRef s' = pendingHeadingRef s"
    using e(5) by blast
  have d: "newSpeed f \<ge> 3 \<and> appStatus s \<noteq> NAVIGATING \<and> rawHeading f = Some h \<longrightarrow>
            pendingHeadingRef s' = Some h"
  proof
    assume h: "newSpeed f \<ge> 3 \<and> appStatus s \<noteq> NAVIGATING \<and> rawHeading f = Some h"
    then have idle: "appStatus s \<noteq> NAVIGATING \<or> route s = None" by simp
    from updateRiderLocation_idle [OF idle, of c f] assms
    have "s' = smoothStage c (commitStage
                  (pendingStage c s f (newPos f) (fst (snd (snapStage s f)))) f)"
      by simp
    then show "pendingHeadingRef s' = Some h"
      using h snapStage_idle_heading [OF idle, of f h]
      by (simp add: smoothStage_frame commitStage_frame) (simp add: pendingStage_def)
  qed
  from a b c d show ?thesis by blast
qed

theorem C4_heading_commit_witness:
  "\<exists>s1. updateRiderLocation idleCaptured initialSession fastFix = Inr s1
     \<and> now fastFix - lastStateUpdateTimeRef initialSession \<ge> 100
     \<and> newSpeed fastFix \<ge> 3 \<and> appStatus initialSession \<noteq> NAVIGATING
     \<and> rawHeading fastFix = Some 90
     \<and> pendingHeadingRef s1 = Some 90
     \<and> heading s1 = smoothAngle (heading initialSession) 90 0.15
     \<and> (\<exists>s2. updateRiderLocation idleCaptured s1 slowFix = Inr s2
             \<and> newSpeed slowFix < 3 \<and> \<not> c_isSimulating idleCaptured
             \<and> pendingHeadingRef s1 \<noteq> None
             \<and> pendingHeadingRef s2 = pendingHeadingRef s1)"
proof -
  obtain s1 where s1: "updateRiderLocation idleCaptured initialSession fastFix = Inr s1"
    using updateRiderLocation_total by blast
  obtain s2 where s2: "updateRiderLocation idleCaptured s1 slowFix = Inr s2"
    using updateRiderLocation_total by blast
  have h: "now fastFix - lastStateUpdateTimeRef initialSession \<ge> 100"
    "newSpeed fastFix \<ge> 3" "appStatus initialSession \<noteq> NAVIGATING" "rawHeading fastFix = Some 90"
    "newSpeed slowFix < 3" "\<not> c_isSimulating idleCaptured"
    by (simp_all add: fastFix_def slowFix_def idleCaptured_def initialSession_def)
  from C4_heading_commit [OF s1, of 90] h have a: "pendingHeadingRef s1 = Some 90"
    "heading s1 = smoothAngle (heading initialSession) 90 0.15"
    by simp_all
  from C4_heading_commit [OF s2, of 0] h a have "pendingHeadingRef s2 = pendingHeadingRef s1"
    by simp
  with s1 s2 h a show ?thesis by auto
qed

text \<open>
  Claim C4 as stated says that the heading commit is skipped below 3 km/h, so that the
  committed heading stays as it is. After a fix at 50 km/h with heading 90 (committed
  heading 13.5), a fix at 1 km/h 200 ms later still commits: the committed heading moves
  on to 24.975, toward the pending heading 90 recorded by the first fix.
\<close>

theorem C4_low_speed_counterexample:
  "newSpeed slowFix < 3 \<and> \<not> c_isSimulating idleCaptured
   \<and> heading (projr (updateRiderLocation idleCaptured initialSession fastFix)) = 27 / 2
   \<and> heading (projr (updateRiderLocation idleCaptured
                 (projr (updateRiderLocation idleCaptured initialSession fastFix)) slowFix))
       = 999 / 40"
proof -
  from fastFix_state obtain s1 where
    s1: "updateRiderLocation idleCaptured initialSession fastFix = Inr s1"
      "heading s1 = 27 / 2" "pendingHeadingRef s1 = Some 90"
      "lastStateUpdateTimeRef s1 = 1000" "appStatus s1 = IDLE"
    by blast
  obtain s2 where s2: "updateRiderLocation idleCaptured s1 slowFix = Inr s2"
    using updateRiderLocation_total by blast
  note e = updateRiderLocation_commit [OF s2]
  have slow: "newSpeed slowFix < 3" "\<not> c_isSimulating idleCaptured"
    by (simp_all add: slowFix_def idleCaptured_def)
  have gate: "now slowFix - lastStateUpdateTimeRef s1 \<ge> 100"
    by (simp add: slowFix_def s1(4))
  from e(5) [OF slow] s1(3) have ph: "pendingHeadingRef s2 = Some 90" by simp
  have "smoothAngle (27 / 2) 90 0.15 = 999 / 40"
    using js_rem_shift [of "999 / 40" 1] by (simp add: smoothAngle_def wrapDiff_def Let_def)
  with e(3) [OF gate] ph s1(2) have "heading s2 = 999 / 40" by simp
  with s1 s2 slow show ?thesis by simp
qed

section \<open>Degenerate routes\<close>

lemma getNearestPointOnLine_short:
  "length line < 2 \<Longrightarrow> getNearestPointOnLine p line = \<lparr>point = p, bearing = 0, segmentIndex = 0\<rparr>"
  unfolding getNearestPointOnLine_def by (rule nearestLoop_degenerate) simp

lemma snapStage_short:
  assumes "route s = Some r" and "length (polyline r) < 2"
  shows "fst (snapStage s f) = newPos f"
proof (cases "appStatus s = NAVIGATING")
  case True
  from snapStage_navigating(1) [OF True assms(1), of f] getNearestPointOnLine_short [OF assms(2)]
  show ?thesis by simp
next
  case False
  then show ?thesis by (intro snapStage_idle) simp
qed

lemma updateRiderLocation_no_index:
  assumes "updateRiderLocation c s f = Inr s'" and "maneuverMeta (route s) = []"
  shows "currentManeuverIndexRef s' = currentManeuverIndexRef s"
    and "currentManeuverIndex s' = currentManeuverIndex s"
    and "currentManeuverRemainingRef s' = currentManeuverRemainingRef s"
    and "currentManeuverRemaining s' = currentManeuverRemaining s"
    and "offRouteCounterRef s' = offRouteCounterRef s"
    and "reroutingRef s' = reroutingRef s"
    and "lastRerouteTimeRef s' = lastRerouteTimeRef s"
    and "rerouteRequests s' = rerouteRequests s"
    and "lastPosRef s' = Some (fst (snapStage s f))"
proof -
  from updateRiderLocation_unfold [OF assms(1)] obtain p h0 k h where
    sn: "snapStage s f = (p, h0, k)" and
    tr: "trackingStage c (smoothStage c (commitStage (pendingStage c s f p h) f)) f p h k = Inr s'"
    by blast
  let ?s3 = "smoothStage c (commitStage (pendingStage c s f p h) f)"
  have "maneuverMeta (route ?s3) = []" using assms(2) by (simp add: stage_frames)
  from trackingStage_skip [OF this, of c f p h k] tr have s': "s' = ?s3" by simp
  show "currentManeuverIndexRef s' = currentManeuverIndexRef s"
    "currentManeuverIndex s' = currentManeuverIndex s"
    "currentManeuverRemainingRef s' = currentManeuverRemainingRef s"
    "currentManeuverRemaining s' = currentManeuverRemaining s"
    "offRouteCounterRef s' = offRouteCounterRef s"
    "reroutingRef s' = reroutingRef s"
    "lastRerouteTimeRef s' = lastRerouteTimeRef s"
    "rerouteRequests s' = rerouteRequests s"
    "lastPosRef s' = Some (fst (snapStage s f))"
    unfolding s' by (simp_all add: stage_frames sn)
qed


text \<open>
  Claim C8, as amended. With no route, or a route whose polyline has fewer than two
  points, \<open>startSimulation\<close> returns the session unchanged. A route with fewer than two
  polyline points or without maneuvers has an empty maneuver index, and on such a route
  the fix handler leaves the maneuver index, the remaining distance, the strike counter
  and the reroute state as they are. The fix handler never throws, on any route. With
  fewer than two polyline points the pending position and the last position are the raw
  fix, and a commit publishes the raw fix.
\<close>

theorem C8_degenerate_routes:
  "(route s = None \<or> (route s = Some r \<and> length (polyline r) < 2) \<longrightarrow> startSimulation c s = s)
   \<and> (length (polyline r) < 2 \<or> maneuvers r = [] \<longrightarrow> maneuverMeta (Some r) = [])
   \<and> (\<exists>s'. updateRiderLocation c s f = Inr s')
   \<and> (route s = Some r \<and> (length (polyline r) < 2 \<or> maneuvers r = [])
        \<and> updateRiderLocation c s f = Inr s' \<longrightarrow>
          currentManeuverIndexRef s' = currentManeuverIndexRef s
        \<and> currentManeuverIndex s' = currentManeuverIndex s
        \<and> currentManeuverRemainingRef s' = currentManeuverRemainingRef s
        \<and> currentManeuverRemaining s' = currentManeuverRemaining s
        \<and> offRouteCounterRef s' = offRouteCounterRef s
        \<and> reroutingRef s' = reroutingRef s
        \<and> lastRerouteTimeRef s' = lastRerouteTimeRef s
        \<and> rerouteRequests s' = rerouteRequests s)
   \<and> (route s = Some r \<and> length (polyline r) < 2 \<and> updateRiderLocation c s f = Inr s' \<longrightarrow>
          pendingPosRef s' = Some (newPos f) \<and> lastPosRef s' = Some (newPos f)
        \<and> (now f - lastStateUpdateTimeRef s \<ge> 100 \<longrightarrow> currentPos s' = Some (newPos f)))"
proof -
  have a: "route s = None \<or> (route s = Some r \<and> length (polyline r) < 2) \<longrightarrow> startSimulation c s = s"
    by (auto simp: startSimulation_def)
  have b: "length (polyline r) < 2 \<or> maneuvers r = [] \<longrightarrow> maneuverMeta (Some r) = []"
    using maneuverMeta_degenerate [of r] by blast
  have c: "\<exists>s'. updateRiderLocation c s f = Inr s'"
    by (rule updateRiderLocation_total)
  have d: "route s = Some r \<and> (length (polyline r) < 2 \<or> maneuvers r = [])
        \<and> updateRiderLocation c s f = Inr s' \<longrightarrow>
          currentManeuverIndexRef s' = currentManeuverIndexRef s
        \<and> currentManeuverIndex s' = currentManeuverIndex s
        \<and> currentManeuverRemainingRef s' = currentManeuverRemainingRef s
        \<and> currentManeuverRemaining s' = currentManeuverRemaining s
        \<and> offRouteCounterRef s' = offRouteCounterRef s
        \<and> reroutingRef s' = reroutingRef s
        \<and> lastRerouteTimeRef s' = lastRerouteTimeRef s
        \<and> rerouteRequests s' = rerouteRequests s"
  proof
    assume h: "route s = Some r \<and> (length (polyline r) < 2 \<or> maneuvers r = [])
        \<and> updateRiderLocation c s f = Inr s'"
    then have m: "maneuverMeta (route s) = []" using maneuverMeta_degenerate [of r] by auto
    from h have u: "updateRiderLocation c s f = Inr s'" by simp
    from updateRiderLocation_no_index [OF u m]
    show "currentManeuverIndexRef s' = currentManeuverIndexRef s
        \<and> currentManeuverIndex s' = currentManeuverIndex s
        \<and> currentManeuverRemainingRef s' = currentManeuverRemainingRef s
        \<and> currentManeuverRemaining s' = currentManeuverRemaining s
        \<and> offRouteCounterRef s' = offRouteCounterRef s
        \<and> reroutingRef s' = reroutingRef s
        \<and> lastRerouteTimeRef s' = lastRerouteTimeRef s
        \<and> rerouteRequests s' = rerouteRequests s"
      by simp
  qed
  have e: "route s = Some r \<and> length (polyline r) < 2 \<and> updateRiderLocation c s f = Inr s' \<longrightarrow>
          pendingPosRef s' = Some (newPos f) \<and> lastPosRef s' = Some (newPos f)
        \<and> (now f - lastStateUpdateTimeRef s \<ge> 100 \<longrightarrow> currentPos s' = Some (newPos f))"
  proof
    assume h: "route s = Some r \<and> length (polyline r) < 2 \<and> updateRiderLocation c s f = Inr s'"
    then have u: "updateRiderLocation c s f = Inr s'" by simp
    from h have "route s = Some r" "length (polyline r) < 2" by simp_all
    then have sn: "fst (snapStage s f) = newPos f" by (rule snapStage_short)
    from h have m: "maneuverMeta (route s) = []" using maneuverMeta_degenerate [of r] by auto
    note e = updateRiderLocation_commit [OF u]
    show "pendingPosRef s' = Some (newPos f) \<and> lastPosRef s' = Some (newPos f)
        \<and> (now f - lastStateUpdateTimeRef s \<ge> 100 \<longrightarrow> currentPos s' = Some (newPos f))"
      using e(1) e(3) updateRiderLocation_no_index(9) [OF u m] sn by auto
  qed
  from a b c d e show ?thesis by blast
qed

theorem C8_degenerate_routes_witness:
  "let r = \<lparr>polyline = [\<lparr>lat = 52, lng = 5\<rparr>], distance = 0, duration = 0, maneuvers = []\<rparr>;
       s = initialSession\<lparr>appStatus := NAVIGATING, route := Some r\<rparr>
   in route s = Some r \<and> length (polyline r) < 2
      \<and> startSimulation idleCaptured s = s
      \<and> maneuverMeta (Some r) = []
      \<and> now fastFix - lastStateUpdateTimeRef s \<ge> 100
      \<and> (\<exists>s'. updateRiderLocation idleCaptured s fastFix = Inr s'
              \<and> currentManeuverIndexRef s' = 0 \<and> offRouteCounterRef s' = 0
              \<and> rerouteRequests s' = []
              \<and> pendingPosRef s' = Some \<lparr>lat = 52, lng = 5\<rparr>
              \<and> currentPos s' = Some \<lparr>lat = 52, lng = 5\<rparr>)"
proof -
  define r where "r = \<lparr>polyline = [\<lparr>lat = 52, lng = 5\<rparr>], distance = 0, duration = 0, maneuvers = []\<rparr>"
  define s where "s = initialSession\<lparr>appStatus := NAVIGATING, route := Some r\<rparr>"
  have h: "route s = Some r" "length (polyline r) < 2"
    "now fastFix - lastStateUpdateTimeRef s \<ge> 100"
    by (simp_all add: s_def r_def initialSession_def fastFix_def)
  have init: "currentManeuverIndexRef s = 0" "offRouteCounterRef s = 0" "rerouteRequests s = []"
    "newPos fastFix = \<lparr>lat = 52, lng = 5\<rparr>"
    by (simp_all add: s_def initialSession_def fastFix_def)
  obtain s' where s': "updateRiderLocation idleCaptured s fastFix = Inr s'"
    using updateRiderLocation_total by blast
  note t = C8_degenerate_routes [of s r idleCaptured fastFix s']
  from t h have a: "startSimulation idleCaptured s = s" "maneuverMeta (Some r) = []"
    by blast+
  from t h s' init have b: "currentManeuverIndexRef s' = 0 \<and> offRouteCounterRef s' = 0
              \<and> rerouteRequests s' = []
              \<and> pendingPosRef s' = Some \<lparr>lat = 52, lng = 5\<rparr>
              \<and> currentPos s' = Some \<lparr>lat = 52, lng = 5\<rparr>"
    by simp
  show ?thesis
    unfolding Let_def using h a b s' unfolding r_def s_def by blast
qed


text \<open>
  Claim C8 as stated says that the simulation does not start on a route without
  maneuvers. The guard of \<open>startSimulation\<close> looks at the polyline only: on a route with
  two polyline points and no maneuvers it changes the session (simulating, navigating).
\<close>

theorem C8_no_maneuvers_counterexample:
  "maneuvers noManeuverRoute = []
   \<and> isSimulating (startSimulation idleCaptured (initialSession\<lparr>route := Some noManeuverRoute\<rparr>))
   \<and> appStatus (startSimulation idleCaptured (initialSession\<lparr>route := Some noManeuverRoute\<rparr>))
       = NAVIGATING
   \<and> \<not> isSimulating (initialSession\<lparr>route := Some noManeuverRoute\<rparr>)
   \<and> appStatus (initialSession\<lparr>route := Some noManeuverRoute\<rparr>) = IDLE
   \<and> startSimulation idleCaptured (initialSession\<lparr>route := Some noManeuverRoute\<rparr>)
       \<noteq> initialSession\<lparr>route := Some noManeuverRoute\<rparr>"
proof -
  let ?s = "initialSession\<lparr>route := Some noManeuverRoute\<rparr>"
  have a: "maneuvers noManeuverRoute = []" by (simp add: noManeuverRoute_def)
  have b: "isSimulating (startSimulation idleCaptured ?s)"
    "appStatus (startSimulation idleCaptured ?s) = NAVIGATING"
    by (simp_all add: startSimulation_def noManeuverRoute_def Let_def setAppStatus_def)
  have c: "\<not> isSimulating ?s" "appStatus ?s = IDLE"
    by (simp_all add: initialSession_def)
  from b(1) c(1) have "startSimulation idleCaptured ?s \<noteq> ?s" by metis
  with a b c show ?thesis by blast
qed

section \<open>Arrival of the simulator\<close>

lemma totalDistLoop_last:
  "totalDistLoop acc prev ps = last (acc # cumulativeFrom acc prev ps)"
  by (induction ps arbitrary: acc prev) (simp_all add: Let_def)

lemma totalDist_last: "line \<noteq> [] \<Longrightarrow> totalDist line = last (cumulativeDistances line)"
  by (cases line) (simp_all add: totalDistLoop_last)

lemma frames_after_arrival:
  assumes "simLoop s = None" and "\<forall>e\<in>set frames. \<exists>p a b. e = AnimationFrame p a b"
  shows "run s frames = Inr s"
  using assms(2)
proof (induction frames)
  case Nil
  then show ?case by simp
next
  case (Cons e frames)
  then obtain p a b where e: "e = AnimationFrame p a b" by auto
  have "step s e = Inr s" using assms(1) by (simp add: e)
  then show ?case using Cons by simp
qed


text \<open>
  Claim C9. \<open>startSimulation\<close> on a route with at least two polyline points creates the
  frame callback with the total polyline distance (the last entry of the cumulative
  table) and travelled distance 0. The callback works on every second frame: it adds 0.8
  to the travelled distance. At a working frame where the travelled distance reaches the
  total distance, the simulation stops (no frame is pending any more, \<open>isSimulating\<close> is
  false), the status becomes \<open>ARRIVED\<close>, no fix is handed to the fix handler (pending and
  committed position are untouched), and every later animation frame leaves the session
  as it is. At a working frame before that, the simulation goes on (the callback is
  pending again, status unchanged); a skipped frame only counts.
\<close>

theorem C9_simulator_arrival:
  "(simLoop s = Some cl \<and> even (frameCount cl + 1) \<and> simTotalDist cl \<le> distanceRef s + 0.8 \<longrightarrow>
      (\<exists>s'. step s (AnimationFrame perfNow t tMs) = Inr s'
         \<and> appStatus s' = ARRIVED \<and> isSimulating s' = False \<and> simLoop s' = None
         \<and> distanceRef s' = distanceRef s + 0.8
         \<and> commitLog s' = commitLog s \<and> currentPos s' = currentPos s
         \<and> pendingPosRef s' = pendingPosRef s \<and> lastPosRef s' = lastPosRef s
         \<and> ((\<forall>e\<in>set frames. \<exists>p a b. e = AnimationFrame p a b) \<longrightarrow> run s' frames = Inr s')))
   \<and> (simLoop s = Some cl \<and> 2 \<le> length (simPoly cl) \<and> even (frameCount cl + 1)
        \<and> distanceRef s + 0.8 < simTotalDist cl \<longrightarrow>
      (\<exists>s'. step s (AnimationFrame perfNow t tMs) = Inr s'
         \<and> simLoop s' = Some (cl\<lparr>frameCount := frameCount cl + 1\<rparr>)
         \<and> appStatus s' = appStatus s \<and> isSimulating s' = isSimulating s
         \<and> distanceRef s' = distanceRef s + 0.8))
   \<and> (simLoop s = Some cl \<and> odd (frameCount cl + 1) \<longrightarrow>
        step s (AnimationFrame perfNow t tMs)
          = Inr (s\<lparr>simLoop := Some (cl\<lparr>frameCount := frameCount cl + 1\<rparr>)\<rparr>))
   \<and> (route s0 = Some r \<and> 2 \<le> length (polyline r) \<longrightarrow>
        simLoop (startSimulation c s0)
          = Some \<lparr>simCaptured = c, simPoly = polyline r, simTotalDist = totalDist (polyline r),
                  simRouteDistance = distance r, frameCount = 0\<rparr>
        \<and> totalDist (polyline r) = last (cumulativeDistances (polyline r))
        \<and> distanceRef (startSimulation c s0) = 0
        \<and> appStatus (startSimulation c s0) = NAVIGATING
        \<and> isSimulating (startSimulation c s0))"
proof -
  have a: "simLoop s = Some cl \<and> even (frameCount cl + 1) \<and> simTotalDist cl \<le> distanceRef s + 0.8 \<longrightarrow>
      (\<exists>s'. step s (AnimationFrame perfNow t tMs) = Inr s'
         \<and> appStatus s' = ARRIVED \<and> isSimulating s' = False \<and> simLoop s' = None
         \<and> distanceRef s' = distanceRef s + 0.8
         \<and> commitLog s' = commitLog s \<and> currentPos s' = currentPos s
         \<and> pendingPosRef s' = pendingPosRef s \<and> lastPosRef s' = lastPosRef s
         \<and> ((\<forall>e\<in>set frames. \<exists>p a b. e = AnimationFrame p a b) \<longrightarrow> run s' frames = Inr s'))"
  proof
    assume h: "simLoop s = Some cl \<and> even (frameCount cl + 1) \<and> simTotalDist cl \<le> distanceRef s + 0.8"
    let ?s' = "setAppStatus ARRIVED
                 (stopSimulation (s\<lparr>simLoop := None, distanceRef := distanceRef s + 0.8\<rparr>))"
    from h have ev: "(frameCount cl + 1) mod 2 = 0" by presburger
    with h have st: "step s (AnimationFrame perfNow t tMs) = Inr ?s'"
      by (simp add: animate_def Let_def)
    have f: "appStatus ?s' = ARRIVED" "isSimulating ?s' = False" "simLoop ?s' = None"
      "distanceRef ?s' = distanceRef s + 0.8" "commitLog ?s' = commitLog s"
      "currentPos ?s' = currentPos s" "pendingPosRef ?s' = pendingPosRef s"
      "lastPosRef ?s' = lastPosRef s"
      by (simp_all add: setAppStatus_def stopSimulation_def)
    have "(\<forall>e\<in>set frames. \<exists>p a b. e = AnimationFrame p a b) \<longrightarrow> run ?s' frames = Inr ?s'"
      using frames_after_arrival [OF f(3)] by blast
    with st f show "\<exists>s'. step s (AnimationFrame perfNow t tMs) = Inr s'
         \<and> appStatus s' = ARRIVED \<and> isSimulating s' = False \<and> simLoop s' = None
         \<and> distanceRef s' = distanceRef s + 0.8
         \<and> commitLog s' = commitLog s \<and> currentPos s' = currentPos s
         \<and> pendingPosRef s' = pendingPosRef s \<and> lastPosRef s' = lastPosRef s
         \<and> ((\<forall>e\<in>set frames. \<exists>p a b. e = AnimationFrame p a b) \<longrightarrow> run s' frames = Inr s')"
      by blast
  qed
  have b: "simLoop s = Some cl \<and> 2 \<le> length (simPoly cl) \<and> even (frameCount cl + 1)
        \<and> distanceRef s + 0.8 < simTotalDist cl \<longrightarrow>
      (\<exists>s'. step s (AnimationFrame perfNow t tMs) = Inr s'
         \<and> simLoop s' = Some (cl\<lparr>frameCount := frameCount cl + 1\<rparr>)
         \<and> appStatus s' = appStatus s \<and> isSimulating s' = isSimulating s
         \<and> distanceRef s' = distanceRef s + 0.8)"
  proof
    assume h: "simLoop s = Some cl \<and> 2 \<le> length (simPoly cl) \<and> even (frameCount cl + 1)
        \<and> distanceRef s + 0.8 < simTotalDist cl"
    then have len: "2 \<le> length (simPoly cl)" by simp
    from animate_total [OF len] obtain s' where an: "animate cl perfNow t tMs s = Inr s'"
      by blast
    from animate_cases [OF an] h obtain fx s3 where
      u: "updateRiderLocation (simCaptured cl)
            (s\<lparr>simLoop := None, distanceRef := distanceRef s + 0.8,
               simLastTimeRef := Some perfNow, simLastDistRef := distanceRef s + 0.8\<rparr>) fx = Inr s3"
      and s': "s' = s3\<lparr>simLoop := Some (cl\<lparr>frameCount := frameCount cl + 1\<rparr>)\<rparr>"
      by auto
    note e = updateRiderLocation_commit [OF u]
    have "simLoop s' = Some (cl\<lparr>frameCount := frameCount cl + 1\<rparr>)"
      "appStatus s' = appStatus s" "isSimulating s' = isSimulating s"
      "distanceRef s' = distanceRef s + 0.8"
      using e(7,9,10) by (simp_all add: s')
    with an h show "\<exists>s'. step s (AnimationFrame perfNow t tMs) = Inr s'
         \<and> simLoop s' = Some (cl\<lparr>frameCount := frameCount cl + 1\<rparr>)
         \<and> appStatus s' = appStatus s \<and> isSimulating s' = isSimulating s
         \<and> distanceRef s' = distanceRef s + 0.8"
      by simp
  qed
  have c: "simLoop s = Some cl \<and> odd (frameCount cl + 1) \<longrightarrow>
        step s (AnimationFrame perfNow t tMs)
          = Inr (s\<lparr>simLoop := Some (cl\<lparr>frameCount := frameCount cl + 1\<rparr>)\<rparr>)"
  proof
    assume h: "simLoop s = Some cl \<and> odd (frameCount cl + 1)"
    then have "(frameCount cl + 1) mod 2 \<noteq> 0" by presburger
    with h show "step s (AnimationFrame perfNow t tMs)
          = Inr (s\<lparr>simLoop := Some (cl\<lparr>frameCount := frameCount cl + 1\<rparr>)\<rparr>)"
      by (simp add: animate_def Let_def)
  qed
  have d: "route s0 = Some r \<and> 2 \<le> length (polyline r) \<longrightarrow>
        simLoop (startSimulation c s0)
          = Some \<lparr>simCaptured = c, simPoly = polyline r, simTotalDist = totalDist (polyline r),
                  simRouteDistance = distance r, frameCount = 0\<rparr>
        \<and> totalDist (polyline r) = last (cumulativeDistances (polyline r))
        \<and> distanceRef (startSimulation c s0) = 0
        \<and> appStatus (startSimulation c s0) = NAVIGATING
        \<and> isSimulating (startSimulation c s0)"
  proof
    assume h: "route s0 = Some r \<and> 2 \<le> length (polyline r)"
    then have "polyline r \<noteq> []" by auto
    from totalDist_last [OF this] h
    show "simLoop (startSimulation c s0)
          = Some \<lparr>simCaptured = c, simPoly = polyline r, simTotalDist = totalDist (polyline r),
                  simRouteDistance = distance r, frameCount = 0\<rparr>
        \<and> totalDist (polyline r) = last (cumulativeDistances (polyline r))
        \<and> distanceRef (startSimulation c s0) = 0
        \<and> appStatus (startSimulation c s0) = NAVIGATING
        \<and> isSimulating (startSimulation c s0)"
      by (simp add: startSimulation_def Let_def setAppStatus_def)
  qed
  from a b c d show ?thesis by blast
qed

theorem C9_simulator_arrival_witness:
  "let r = \<lparr>polyline = [\<lparr>lat = 52, lng = 5\<rparr>, \<lparr>lat = 52, lng = 5\<rparr>], distance = 0, duration = 0,
             maneuvers = []\<rparr>;
       s0 = initialSession\<lparr>route := Some r\<rparr>
   in route s0 = Some r \<and> 2 \<le> length (polyline r)
      \<and> simTotalDist (the (simLoop (startSimulation idleCaptured s0))) = 0
      \<and> (\<exists>s'. run s0 [StartSimulation idleCaptured, AnimationFrame 0 1000 1000,
                        AnimationFrame 16 1016 1016, AnimationFrame 33 1033 1033] = Inr s'
              \<and> appStatus s' = ARRIVED \<and> \<not> isSimulating s' \<and> simLoop s' = None
              \<and> distanceRef s' = 4 / 5 \<and> commitLog s' = [])"
proof -
  define r where "r = \<lparr>polyline = [\<lparr>lat = 52, lng = 5\<rparr>, \<lparr>lat = 52, lng = 5\<rparr>], distance = 0,
                       duration = 0, maneuvers = []\<rparr>"
  define s0 where "s0 = initialSession\<lparr>route := Some r\<rparr>"
  define s1 where "s1 = startSimulation idleCaptured s0"
  define cl0 where "cl0 = \<lparr>simCaptured = idleCaptured, simPoly = polyline r,
                           simTotalDist = totalDist (polyline r),
                           simRouteDistance = distance r, frameCount = 0\<rparr>"
  define cl1 where "cl1 = cl0\<lparr>frameCount := frameCount cl0 + 1\<rparr>"
  define s2 where "s2 = s1\<lparr>simLoop := Some cl1\<rparr>"
  have h0: "route s0 = Some r" "2 \<le> length (polyline r)"
    by (simp_all add: s0_def r_def)
  have tot: "totalDist (polyline r) = 0"
    by (simp add: r_def getDistanceMeters_self)
  from C9_simulator_arrival [of s1 cl0 0 1000 1000 "[]" s0 r idleCaptured] h0
  have start: "simLoop s1 = Some cl0" "distanceRef s1 = 0"
    by (simp_all add: s1_def cl0_def)
  have log1: "commitLog s1 = []"
    by (simp add: s1_def startSimulation_frames s0_def initialSession_def)
  have odd1: "odd (frameCount cl0 + 1)" by (simp add: cl0_def)
  from C9_simulator_arrival [of s1 cl0 0 1000 1000 "[]" s0 r idleCaptured] start(1) odd1
  have st1: "step s1 (AnimationFrame 0 1000 1000) = Inr s2"
    by (simp add: s2_def cl1_def)
  have pre2: "simLoop s2 = Some cl1" "even (frameCount cl1 + 1)"
    "simTotalDist cl1 \<le> distanceRef s2 + 0.8"
    by (simp_all add: s2_def cl1_def cl0_def tot start(2))
  from C9_simulator_arrival
         [of s2 cl1 16 1016 1016 "[AnimationFrame 33 1033 1033]" s0 r idleCaptured] pre2
  obtain s3 where s3: "step s2 (AnimationFrame 16 1016 1016) = Inr s3"
    "appStatus s3 = ARRIVED" "isSimulating s3 = False" "simLoop s3 = None"
    "distanceRef s3 = distanceRef s2 + 0.8" "commitLog s3 = commitLog s2"
    "(\<forall>e\<in>set [AnimationFrame 33 1033 1033]. \<exists>p a b. e = AnimationFrame p a b) \<longrightarrow>
       run s3 [AnimationFrame 33 1033 1033] = Inr s3"
    by blast
  from s3(7) have last: "run s3 [AnimationFrame 33 1033 1033] = Inr s3" by simp
  have "run s0 [StartSimulation idleCaptured, AnimationFrame 0 1000 1000,
                AnimationFrame 16 1016 1016, AnimationFrame 33 1033 1033] = Inr s3"
    using st1 s3(1) last by (simp add: s1_def)
  moreover have "distanceRef s3 = 4 / 5" "commitLog s3 = []"
    using s3(5,6) start(2) log1 by (simp_all add: s2_def)
  moreover have "simTotalDist (the (simLoop (startSimulation idleCaptured s0))) = 0"
    using start(1) tot by (simp add: s1_def cl0_def)
  ultimately show ?thesis
    unfolding Let_def using h0 s3(2,3,4) unfolding r_def s0_def by auto
qed

end
